theory Spec2Isabelle
  imports Complex_Main "HOL-Library.AList"
begin

section \<open>Shared data: JavaScript maps, points, the terrain grid\<close>

text \<open>
  A JavaScript \<open>Map\<close> keeps its keys unique and iterates in insertion order. It is
  modelled as an association list: \<open>Map.set\<close> is \<^const>\<open>AList.update\<close> (an existing
  key keeps its place, a new key goes to the end), \<open>Map.delete\<close> is
  \<^const>\<open>AList.delete\<close>, \<open>Map.get\<close> is \<^const>\<open>map_of\<close>, \<open>Map.size\<close> is
  \<^const>\<open>length\<close>. A JavaScript \<open>Set\<close> of ids whose order is never observed is a HOL set.
  Positions and distances are reals with exact arithmetic; indices and counts are integers.
\<close>

type_synonym ('k, 'v) jsmap = "('k \<times> 'v) list"

record point =
  px :: real
  py :: real

record flankpos = point +
  side :: string

text \<open>The level map: rows of tile numbers, indexed \<open>map[y][x]\<close>.\<close>

type_synonym grid = "int list list"

text \<open>\<open>TILE_TYPES\<close> and \<open>GAME_CONFIG.TILE_SIZE\<close> of the constants module.\<close>

definition EMPTY :: int where "EMPTY = 0"
definition BRICK :: int where "BRICK = 1"
definition STEEL :: int where "STEEL = 2"
definition WATER :: int where "WATER = 3"
definition ICE :: int where "ICE = 4"
definition FOREST :: int where "FOREST = 5"
definition BASE :: int where "BASE = 6"

definition TILE_SIZE :: real where "TILE_SIZE = 32"

text \<open>Reading an array out of range gives \<open>undefined\<close>: \<open>None\<close> here.\<close>

definition at_index :: "'a list \<Rightarrow> int \<Rightarrow> 'a option" where
  "at_index xs i = (if 0 \<le> i \<and> i < int (length xs) then Some (xs ! nat i) else None)"

text \<open>
  Errors as values. \<open>TypeError\<close> is what JavaScript throws when a property is read from
  \<open>undefined\<close>. \<open>OutOfFuel\<close> belongs to the model only: the main loop of the path search
  carries a bound on its iterations, and running out of it is this error.
\<close>

datatype error = TypeError | OutOfFuel

text \<open>
  A JavaScript number that may have left the reals: \<open>x / 0\<close> is an infinity, or NaN
  for \<open>0 / 0\<close>. A comparison with NaN is false.
\<close>

datatype 'a jsnum = Num 'a | PosInf | NegInf | NaN

definition js_div :: "real \<Rightarrow> real \<Rightarrow> real jsnum" where
  "js_div a b =
     (if b \<noteq> 0 then Num (a / b)
      else if a > 0 then PosInf else if a < 0 then NegInf else NaN)"


text \<open>
  Arithmetic on numbers as the threat score needs it. Rounding to the nearest double is
  not modelled; overflow is: a result of magnitude \<open>2^1024 - 2^970\<close> or more is an
  infinity. The sum of the two infinities is NaN, \<open>Math.max\<close> and \<open>Math.min\<close> return
  NaN when an argument is NaN, and in a condition zero and NaN are falsy.
\<close>

definition js_number :: "real \<Rightarrow> real jsnum" where
  "js_number r =
     (if r \<ge> 2 ^ 1024 - 2 ^ 970 then PosInf
      else if r \<le> - (2 ^ 1024 - 2 ^ 970) then NegInf
      else Num r)"

fun js_add :: "real jsnum \<Rightarrow> real jsnum \<Rightarrow> real jsnum" where
  "js_add (Num a) (Num b) = js_number (a + b)"
| "js_add NaN b = NaN"
| "js_add a NaN = NaN"
| "js_add PosInf NegInf = NaN"
| "js_add NegInf PosInf = NaN"
| "js_add PosInf b = PosInf"
| "js_add a PosInf = PosInf"
| "js_add NegInf b = NegInf"
| "js_add a NegInf = NegInf"

fun js_mul :: "real jsnum \<Rightarrow> real jsnum \<Rightarrow> real jsnum" where
  "js_mul (Num a) (Num b) = js_number (a * b)"
| "js_mul NaN b = NaN"
| "js_mul a NaN = NaN"
| "js_mul (Num a) b = (if a = 0 then NaN else if (a > 0) = (b = PosInf) then PosInf else NegInf)"
| "js_mul a (Num b) = (if b = 0 then NaN else if (b > 0) = (a = PosInf) then PosInf else NegInf)"
| "js_mul a b = (if a = b then PosInf else NegInf)"

fun js_max :: "real jsnum \<Rightarrow> real jsnum \<Rightarrow> real jsnum" where
  "js_max NaN b = NaN"
| "js_max a NaN = NaN"
| "js_max PosInf b = PosInf"
| "js_max a PosInf = PosInf"
| "js_max NegInf b = b"
| "js_max a NegInf = a"
| "js_max (Num a) (Num b) = Num (max a b)"

fun js_min :: "real jsnum \<Rightarrow> real jsnum \<Rightarrow> real jsnum" where
  "js_min NaN b = NaN"
| "js_min a NaN = NaN"
| "js_min NegInf b = NegInf"
| "js_min a NegInf = NegInf"
| "js_min PosInf b = b"
| "js_min a PosInf = a"
| "js_min (Num a) (Num b) = Num (min a b)"

definition js_truthy :: "real jsnum \<Rightarrow> bool" where
  "js_truthy v = (case v of Num a \<Rightarrow> a \<noteq> 0 | PosInf \<Rightarrow> True | NegInf \<Rightarrow> True | NaN \<Rightarrow> False)"

section \<open>The squad blackboard (AIBlackboard)\<close>

text \<open>
  The fields of \<open>AIBlackboard\<close> that are keyed by an agent id, the player knowledge that
  the flanking computation reads, the threat level and the configuration. Left out are the
  fields that none of the operations below reads: the time stamps, the player's velocity,
  the active-agent counter and the list of patrol points. An operation that picks a patrol
  point takes the index it picked as an argument.
\<close>

record blackboard =
  playerLastKnownPosition :: "point option"
  playerDirection :: string
  assignedTargets :: "(string, string) jsmap"
  flankingPositions :: "(string, flankpos) jsmap"
  threatLevel :: "real jsnum"
  enemyPositions :: "(string, point) jsmap"
  attackingEnemies :: "string set"
  assignedPatrolPoints :: "(string, int) jsmap"
  flankingDistance :: real
  minDistanceBetweenEnemies :: real
  maxFlankingEnemies :: int

text \<open>The constructor's initial values.\<close>

definition new_blackboard :: blackboard where
  "new_blackboard =
     \<lparr> playerLastKnownPosition = None, playerDirection = ''down'',
       assignedTargets = [], flankingPositions = [], threatLevel = Num 0,
       enemyPositions = [], attackingEnemies = {}, assignedPatrolPoints = [],
       flankingDistance = 120, minDistanceBetweenEnemies = 60, maxFlankingEnemies = 2 \<rparr>"

subsection \<open>Target balancing\<close>

text \<open>
  \<open>assignTarget(enemyId, preferredTarget = 'player')\<close>: an omitted preference
  (\<open>None\<close>) defaults to \<open>'player'\<close>. The \<open>forEach\<close> over the map counts the values.
\<close>

definition playerTargetCount :: "(string, string) jsmap \<Rightarrow> nat" where
  "playerTargetCount m = length (filter (\<lambda>(k, t). t = ''player'') m)"

definition baseTargetCount :: "(string, string) jsmap \<Rightarrow> nat" where
  "baseTargetCount m = length (filter (\<lambda>(k, t). t \<noteq> ''player'' \<and> t = ''base'') m)"

definition preferredOrDefault :: "string option \<Rightarrow> string" where
  "preferredOrDefault p = (case p of None \<Rightarrow> ''player'' | Some t \<Rightarrow> t)"

definition assignTarget :: "string \<Rightarrow> string option \<Rightarrow> blackboard \<Rightarrow> string \<times> blackboard" where
  "assignTarget enemyId preferredTarget s =
     (let assignedTarget =
            (if playerTargetCount (assignedTargets s) \<ge> 2 \<and> baseTargetCount (assignedTargets s) = 0
             then ''base'' else preferredOrDefault preferredTarget)
      in (assignedTarget,
          s\<lparr>assignedTargets := AList.update enemyId assignedTarget (assignedTargets s)\<rparr>))"

definition removeTargetAssignment :: "string \<Rightarrow> blackboard \<Rightarrow> blackboard" where
  "removeTargetAssignment enemyId s =
     s\<lparr> assignedTargets := AList.delete enemyId (assignedTargets s),
        flankingPositions := AList.delete enemyId (flankingPositions s),
        assignedPatrolPoints := AList.delete enemyId (assignedPatrolPoints s),
        enemyPositions := AList.delete enemyId (enemyPositions s),
        attackingEnemies := attackingEnemies s - {enemyId} \<rparr>"

subsection \<open>Threat score\<close>

text \<open>
  The player as the blackboard reads it; \<open>None\<close> is a \<open>null\<close> player. The star level
  and the lives are JavaScript numbers. \<open>if (player.starLevel)\<close> tests for a number
  other than zero and NaN.
\<close>

record playerinfo =
  isDestroyed :: bool
  starLevel :: "real jsnum"
  lives :: "real jsnum"

definition calculateThreatLevel :: "playerinfo option \<Rightarrow> blackboard \<Rightarrow> blackboard" where
  "calculateThreatLevel player s =
     (case player of
        None \<Rightarrow> s\<lparr>threatLevel := Num 0\<rparr>
      | Some p \<Rightarrow>
          if isDestroyed p then s\<lparr>threatLevel := Num 0\<rparr>
          else
            let threat0 = Num 50;
                threat1 = (if js_truthy (starLevel p)
                           then js_add threat0 (js_mul (starLevel p) (Num 10)) else threat0);
                threat2 = (if js_truthy (lives p)
                           then js_add threat1 (js_mul (lives p) (Num 5)) else threat1);
                activeEnemies = length (enemyPositions s);
                threat3 = (if activeEnemies < 2 then js_add threat2 (Num 20) else threat2)
            in s\<lparr>threatLevel := js_min (Num 100) (js_max (Num 0) threat3)\<rparr>)"

definition getThreatLevel :: "blackboard \<Rightarrow> real jsnum" where
  "getThreatLevel s = threatLevel s"

subsection \<open>Player knowledge, positions and the attacking set\<close>

text \<open>
  The player tank as \<open>updatePlayerInfo\<close> reads it. \<open>player.direction || 'down'\<close>
  replaces the empty string, which is falsy, by \<open>'down'\<close>.
\<close>

record playertank = playerinfo +
  tankX :: real
  tankY :: real
  direction :: string

definition updatePlayerInfo :: "playertank option \<Rightarrow> blackboard \<Rightarrow> blackboard" where
  "updatePlayerInfo player s =
     (case player of
        None \<Rightarrow> s
      | Some p \<Rightarrow>
          if isDestroyed p then s
          else s\<lparr> playerLastKnownPosition := Some \<lparr>px = tankX p, py = tankY p\<rparr>,
                  playerDirection := (if direction p = [] then ''down'' else direction p) \<rparr>)"

definition updateEnemyPosition :: "string \<Rightarrow> point \<Rightarrow> blackboard \<Rightarrow> blackboard" where
  "updateEnemyPosition enemyId position s =
     s\<lparr>enemyPositions := AList.update enemyId position (enemyPositions s)\<rparr>"

definition markAsAttacking :: "string \<Rightarrow> blackboard \<Rightarrow> blackboard" where
  "markAsAttacking enemyId s = s\<lparr>attackingEnemies := insert enemyId (attackingEnemies s)\<rparr>"

definition markAsNotAttacking :: "string \<Rightarrow> blackboard \<Rightarrow> blackboard" where
  "markAsNotAttacking enemyId s = s\<lparr>attackingEnemies := attackingEnemies s - {enemyId}\<rparr>"

text \<open>
  \<open>assignPatrolPoint\<close> and \<open>getNextPatrolPoint\<close> both end in
  \<open>this.assignedPatrolPoints.set(enemyId, index)\<close> and write nothing else; the index
  they computed is the argument here.
\<close>

definition setPatrolIndex :: "string \<Rightarrow> int \<Rightarrow> blackboard \<Rightarrow> blackboard" where
  "setPatrolIndex enemyId index s =
     s\<lparr>assignedPatrolPoints := AList.update enemyId index (assignedPatrolPoints s)\<rparr>"

definition blackboard_clear :: "blackboard \<Rightarrow> blackboard" where
  "blackboard_clear s =
     s\<lparr> playerLastKnownPosition := None, assignedTargets := [], flankingPositions := [],
        enemyPositions := [], attackingEnemies := {}, assignedPatrolPoints := [],
        threatLevel := Num 0 \<rparr>"

text \<open>
  \<open>clear()\<close> is \<open>blackboard_clear\<close> and \<open>update()\<close> is \<open>blackboard_update\<close>
  here. \<open>update()\<close>, called every frame: with a live player in the scene it refreshes the
  player knowledge and the threat level. Before that it validates the patrol points and
  records the number of active agents, which changes none of the fields of this model.
\<close>

definition blackboard_update :: "playertank option \<Rightarrow> blackboard \<Rightarrow> blackboard" where
  "blackboard_update scenePlayer s =
     (case scenePlayer of
        None \<Rightarrow> s
      | Some p \<Rightarrow>
          if isDestroyed p then s
          else calculateThreatLevel (Some (playerinfo.truncate p)) (updatePlayerInfo (Some p) s))"

subsection \<open>Flanking slots\<close>

text \<open>
  What the blackboard reads from its scene: the level map, if one is loaded, and the
  canvas size (\<open>width || 832\<close>: a zero width is falsy).
  \<open>Phaser.Math.Distance.Between\<close> is the Euclidean distance.
\<close>

record scene =
  levelMap :: "grid option"
  configWidth :: real
  configHeight :: real

definition distanceBetween :: "real \<Rightarrow> real \<Rightarrow> real \<Rightarrow> real \<Rightarrow> real" where
  "distanceBetween x1 y1 x2 y2 = sqrt ((x1 - x2)\<^sup>2 + (y1 - y2)\<^sup>2)"

definition indexOf :: "'a list \<Rightarrow> 'a \<Rightarrow> int" where
  "indexOf xs a = (if a \<in> set xs then int (length (takeWhile (\<lambda>b. b \<noteq> a) xs)) else -1)"

definition priorityFor :: "string \<Rightarrow> string list" where
  "priorityFor playerDir =
     (if playerDir = ''up'' then [''bottom'', ''left'', ''right'', ''top'']
      else if playerDir = ''down'' then [''top'', ''left'', ''right'', ''bottom'']
      else if playerDir = ''left'' then [''right'', ''top'', ''bottom'', ''left'']
      else if playerDir = ''right'' then [''left'', ''top'', ''bottom'', ''right'']
      else [''left'', ''right'', ''top'', ''bottom''])"

text \<open>
  A direction that is not a key of the priority table gets the default order. The
  comparator sort of the four candidates is a stable sort by priority index.
\<close>

definition prioritizeFlankingPositions :: "flankpos list \<Rightarrow> string \<Rightarrow> flankpos list" where
  "prioritizeFlankingPositions positions playerDir =
     sort_key (\<lambda>p. indexOf (priorityFor playerDir) (side p)) positions"

definition isPositionOccupied :: "blackboard \<Rightarrow> real \<Rightarrow> real \<Rightarrow> string \<Rightarrow> bool" where
  "isPositionOccupied s x y excludeEnemyId =
     list_ex (\<lambda>(enemyId, flankPos).
        enemyId \<noteq> excludeEnemyId
        \<and> distanceBetween x y (px flankPos) (py flankPos) < minDistanceBetweenEnemies s)
       (flankingPositions s)"

text \<open>
  \<open>_isPositionWalkable\<close>: without a map every position is walkable; a tile that reads
  as \<open>undefined\<close> (a short row) is not in the unwalkable list.
\<close>

definition isPositionWalkable :: "scene \<Rightarrow> real \<Rightarrow> real \<Rightarrow> bool" where
  "isPositionWalkable sc x y =
     (case levelMap sc of
        None \<Rightarrow> True
      | Some m \<Rightarrow>
          let gridX = \<lfloor>x / TILE_SIZE\<rfloor>; gridY = \<lfloor>y / TILE_SIZE\<rfloor> in
          (case m of
             [] \<Rightarrow> False
           | row0 # _ \<Rightarrow>
               if gridY < 0 \<or> gridY \<ge> int (length m) \<or> gridX < 0 \<or> gridX \<ge> int (length row0)
               then False
               else (case at_index (m ! nat gridY) gridX of
                       None \<Rightarrow> True
                     | Some tile \<Rightarrow> tile \<notin> set [BRICK, STEEL, WATER])))"

definition isPositionValid :: "scene \<Rightarrow> real \<Rightarrow> real \<Rightarrow> bool" where
  "isPositionValid sc x y =
     (let margin = 32;
          width = (if configWidth sc = 0 then 832 else configWidth sc);
          height = (if configHeight sc = 0 then 832 else configHeight sc)
      in if x \<le> margin \<or> x \<ge> width - margin \<or> y \<le> margin \<or> y \<ge> height - margin
         then False
         else isPositionWalkable sc x y)"

definition isPositionSafelyWalkable :: "scene \<Rightarrow> real \<Rightarrow> real \<Rightarrow> bool" where
  "isPositionSafelyWalkable sc x y =
     (let halfTile = TILE_SIZE / 2 in
      list_all (\<lambda>(cx, cy). isPositionWalkable sc cx cy)
        [(x, y), (x - halfTile, y - halfTile), (x + halfTile, y - halfTile),
         (x - halfTile, y + halfTile), (x + halfTile, y + halfTile)])"

text \<open>
  \<open>_findNearbyWalkablePosition(pos, searchRadius = 80)\<close>: the radius runs through
  16, 32, 48, 64, 80; the first of the eight candidates of a radius that is valid and
  safely walkable is returned with the side of \<open>pos\<close>.
\<close>

definition nearbyCandidates :: "flankpos \<Rightarrow> real \<Rightarrow> (real \<times> real) list" where
  "nearbyCandidates pos radius =
     [(px pos + radius, py pos), (px pos - radius, py pos),
      (px pos, py pos + radius), (px pos, py pos - radius),
      (px pos + radius, py pos + radius), (px pos - radius, py pos + radius),
      (px pos + radius, py pos - radius), (px pos - radius, py pos - radius)]"

definition findNearbyWalkablePosition :: "scene \<Rightarrow> flankpos \<Rightarrow> flankpos option" where
  "findNearbyWalkablePosition sc pos =
     (let step = TILE_SIZE / 2;
          radii = map (\<lambda>k. real k * step) [1 ..< 6]
      in case find (\<lambda>(cx, cy). isPositionValid sc cx cy \<and> isPositionSafelyWalkable sc cx cy)
                (concat (map (nearbyCandidates pos) radii)) of
           None \<Rightarrow> None
         | Some (cx, cy) \<Rightarrow> Some \<lparr>px = cx, py = cy, side = side pos\<rparr>)"

definition getFlankingEnemyCount :: "blackboard \<Rightarrow> int" where
  "getFlankingEnemyCount s = int (length (flankingPositions s))"

definition canJoinFlanking :: "blackboard \<Rightarrow> bool" where
  "canJoinFlanking s \<longleftrightarrow> int (length (flankingPositions s)) < maxFlankingEnemies s"

text \<open>
  \<open>calculateFlankingPosition(enemyId, enemyPos)\<close> returns the reserved position, or
  \<open>None\<close> for \<open>null\<close>, with the blackboard after the call. The agent's own position is
  not read by the body.
\<close>

definition potentialPositions :: "point \<Rightarrow> real \<Rightarrow> flankpos list" where
  "potentialPositions playerPos flankDist =
     [\<lparr>px = px playerPos - flankDist, py = py playerPos, side = ''left''\<rparr>,
      \<lparr>px = px playerPos + flankDist, py = py playerPos, side = ''right''\<rparr>,
      \<lparr>px = px playerPos, py = py playerPos - flankDist, side = ''top''\<rparr>,
      \<lparr>px = px playerPos, py = py playerPos + flankDist, side = ''bottom''\<rparr>]"

definition reserveSlot :: "string \<Rightarrow> flankpos \<Rightarrow> blackboard \<Rightarrow> flankpos option \<times> blackboard" where
  "reserveSlot enemyId pos s =
     (Some pos, s\<lparr>flankingPositions := AList.update enemyId pos (flankingPositions s)\<rparr>)"

definition calculateFlankingPosition ::
  "scene \<Rightarrow> string \<Rightarrow> point \<Rightarrow> blackboard \<Rightarrow> flankpos option \<times> blackboard" where
  "calculateFlankingPosition sc enemyId enemyPos s =
     (case playerLastKnownPosition s of
        None \<Rightarrow> (None, s)
      | Some playerPos \<Rightarrow>
          let prioritizedPositions =
                prioritizeFlankingPositions (potentialPositions playerPos (flankingDistance s))
                  (playerDirection s)
          in (case find (\<lambda>pos. \<not> isPositionOccupied s (px pos) (py pos) enemyId
                           \<and> isPositionValid sc (px pos) (py pos)
                           \<and> isPositionSafelyWalkable sc (px pos) (py pos))
                     prioritizedPositions of
                Some pos \<Rightarrow> reserveSlot enemyId pos s
              | None \<Rightarrow>
                  (case find (\<lambda>nearbyPos. \<not> isPositionOccupied s (px nearbyPos) (py nearbyPos) enemyId)
                          (List.map_filter (findNearbyWalkablePosition sc) prioritizedPositions) of
                     Some nearbyPos \<Rightarrow> reserveSlot enemyId nearbyPos s
                   | None \<Rightarrow> (None, s))))"

text \<open>
  The agent controller releases its slot on arrival with
  \<open>blackboard.flankingPositions.delete(this.id)\<close>.
\<close>

definition releaseFlankingSlot :: "string \<Rightarrow> blackboard \<Rightarrow> blackboard" where
  "releaseFlankingSlot enemyId s =
     s\<lparr>flankingPositions := AList.delete enemyId (flankingPositions s)\<rparr>"

text \<open>
  One blackboard operation. \<open>calculateFlankingPosition\<close> is taken only from a state in
  which \<open>canJoinFlanking\<close> holds, as the controller's \<open>_evaluateFlankingOpportunity\<close>
  calls it.
\<close>

inductive bb_step :: "blackboard \<Rightarrow> blackboard \<Rightarrow> bool" where
  step_updatePlayerInfo: "bb_step s (updatePlayerInfo player s)"
| step_assignTarget: "bb_step s (snd (assignTarget enemyId preferred s))"
| step_removeTargetAssignment: "bb_step s (removeTargetAssignment enemyId s)"
| step_calculateFlankingPosition:
    "canJoinFlanking s \<Longrightarrow> bb_step s (snd (calculateFlankingPosition sc enemyId enemyPos s))"
| step_releaseFlankingSlot: "bb_step s (releaseFlankingSlot enemyId s)"
| step_updateEnemyPosition: "bb_step s (updateEnemyPosition enemyId position s)"
| step_markAsAttacking: "bb_step s (markAsAttacking enemyId s)"
| step_markAsNotAttacking: "bb_step s (markAsNotAttacking enemyId s)"
| step_setPatrolIndex: "bb_step s (setPatrolIndex enemyId index s)"
| step_calculateThreatLevel: "bb_step s (calculateThreatLevel pinfo s)"
| step_clear: "bb_step s (blackboard_clear s)"
| step_update: "bb_step s (blackboard_update scenePlayer s)"

inductive reachable :: "blackboard \<Rightarrow> bool" where
  reachable_new: "reachable new_blackboard"
| reachable_step: "reachable s \<Longrightarrow> bb_step s s' \<Longrightarrow> reachable s'"

text \<open>The number of agents that a target map assigns to a target.\<close>

definition agentsAssigned :: "(string, string) jsmap \<Rightarrow> string \<Rightarrow> nat" where
  "agentsAssigned m t = card {k. map_of m k = Some t}"

text \<open>The bound that \<open>canJoinFlanking\<close> protects.\<close>

definition flank_inv :: "blackboard \<Rightarrow> bool" where
  "flank_inv s \<longleftrightarrow> int (length (flankingPositions s)) \<le> maxFlankingEnemies s"

text \<open>Concrete blackboards used to exercise the theorems below.\<close>

definition two_on_player :: blackboard where
  "two_on_player = new_blackboard\<lparr>assignedTargets := [(''enemy_1'', ''player''), (''enemy_2'', ''player'')]\<rparr>"

definition base_covered :: blackboard where
  "base_covered = new_blackboard\<lparr>assignedTargets :=
     [(''enemy_1'', ''player''), (''enemy_2'', ''player''), (''enemy_4'', ''base'')]\<rparr>"

definition extreme_player :: playerinfo where
  "extreme_player = \<lparr>isDestroyed = False, starLevel = Num (10 ^ 308), lives = Num (- (10 ^ 308))\<rparr>"

definition infinite_player :: playerinfo where
  "infinite_player = \<lparr>isDestroyed = False, starLevel = PosInf, lives = NegInf\<rparr>"

definition open_scene :: scene where
  "open_scene = \<lparr>levelMap = None, configWidth = 832, configHeight = 832\<rparr>"

definition seen_player :: blackboard where
  "seen_player = updatePlayerInfo
     (Some \<lparr>isDestroyed = False, starLevel = Num 0, lives = Num 3, tankX = 400, tankY = 400, direction = ''up''\<rparr>)
     new_blackboard"

definition one_flanker :: blackboard where
  "one_flanker = snd (calculateFlankingPosition open_scene ''enemy_1'' \<lparr>px = 100, py = 100\<rparr> seen_player)"

section \<open>The state machine engine (StateMachine)\<close>

text \<open>
  A state is an object with optional \<open>enter\<close>, \<open>update\<close> and \<open>exit\<close> handlers. The
  handlers are bound to a context object and act on it (and, through it, on the world
  outside the machine): here they are functions on a context of type \<open>'c\<close>. No handler
  registered in this repository calls back into the machine from \<open>enter\<close> or
  \<open>exit\<close>, and the model has no such handler. The field \<open>calls\<close> is a log of the
  handler calls in the order they happen; the machine itself never reads it. The table of
  states is a plain object; a lookup of a name that was never registered is \<open>None\<close>
  here (the property names that every object inherits, such as \<open>constructor\<close>, are not
  state names of this repository and are left out).
\<close>

datatype event = Enter string | Exit string | Update string

record ('c, 'a) state_handlers =
  h_enter :: "('a list \<Rightarrow> 'c \<Rightarrow> 'c) option"
  h_update :: "(real \<Rightarrow> 'c \<Rightarrow> 'c) option"
  h_exit :: "('c \<Rightarrow> 'c) option"

record ('c, 'a) machine =
  states :: "string \<rightharpoonup> ('c, 'a) state_handlers"
  currentState :: "string option"
  previousState :: "string option"
  ctx :: 'c
  calls :: "event list"

definition new_machine :: "'c \<Rightarrow> ('c, 'a) machine" where
  "new_machine c = \<lparr>states = Map.empty, currentState = None, previousState = None, ctx = c, calls = []\<rparr>"

definition addState :: "string \<Rightarrow> ('c, 'a) state_handlers \<Rightarrow> ('c, 'a) machine \<Rightarrow> ('c, 'a) machine" where
  "addState name state m = m\<lparr>states := (states m)(name \<mapsto> state)\<rparr>"

text \<open>
  \<open>this.currentState && ...\<close>: \<open>null\<close> and the empty string are falsy, every other
  string is truthy.
\<close>

definition truthy :: "string option \<Rightarrow> bool" where
  "truthy v = (case v of None \<Rightarrow> False | Some str \<Rightarrow> str \<noteq> [])"

text \<open>
  Leaving the current state: \<open>this.states[this.currentState].exit\<close> throws a TypeError
  when the current state is truthy and not registered.
\<close>

definition leaveCurrent :: "('c, 'a) machine \<Rightarrow> error + ('c, 'a) machine" where
  "leaveCurrent m =
     (case currentState m of
        None \<Rightarrow> Inr m
      | Some cur \<Rightarrow>
          if \<not> truthy (Some cur) then Inr m
          else (case states m cur of
                  None \<Rightarrow> Inl TypeError
                | Some st \<Rightarrow>
                    (case h_exit st of
                       None \<Rightarrow> Inr m
                     | Some f \<Rightarrow> Inr (m\<lparr>ctx := f (ctx m), calls := calls m @ [Exit cur]\<rparr>))))"

definition setState :: "string \<Rightarrow> 'a list \<Rightarrow> ('c, 'a) machine \<Rightarrow> error + bool \<times> ('c, 'a) machine" where
  "setState name args m =
     (case states m name of
        None \<Rightarrow> Inr (False, m)
      | Some st \<Rightarrow>
          if currentState m = Some name then Inr (False, m)
          else (case leaveCurrent m of
                  Inl e \<Rightarrow> Inl e
                | Inr m1 \<Rightarrow>
                    let m2 = m1\<lparr>previousState := currentState m1, currentState := Some name\<rparr>
                    in (case h_enter st of
                          None \<Rightarrow> Inr (True, m2)
                        | Some f \<Rightarrow>
                            Inr (True, m2\<lparr>ctx := f args (ctx m2), calls := calls m2 @ [Enter name]\<rparr>))))"

definition sm_update :: "real \<Rightarrow> ('c, 'a) machine \<Rightarrow> error + ('c, 'a) machine" where
  "sm_update delta m =
     (case currentState m of
        None \<Rightarrow> Inr m
      | Some cur \<Rightarrow>
          if \<not> truthy (Some cur) then Inr m
          else (case states m cur of
                  None \<Rightarrow> Inl TypeError
                | Some st \<Rightarrow>
                    (case h_update st of
                       None \<Rightarrow> Inr m
                     | Some f \<Rightarrow> Inr (m\<lparr>ctx := f delta (ctx m), calls := calls m @ [Update cur]\<rparr>))))"

definition getCurrentState :: "('c, 'a) machine \<Rightarrow> string option" where
  "getCurrentState m = currentState m"

definition getPreviousState :: "('c, 'a) machine \<Rightarrow> string option" where
  "getPreviousState m = previousState m"

text \<open>
  The handler calls that a successful switch makes: the exit handler of the outgoing state
  and the enter handler of the incoming one, each when it is defined.
\<close>

definition exitCalls :: "('c, 'a) machine \<Rightarrow> event list" where
  "exitCalls m =
     (case currentState m of
        None \<Rightarrow> []
      | Some cur \<Rightarrow>
          (case states m cur of
             None \<Rightarrow> []
           | Some st \<Rightarrow> (case h_exit st of None \<Rightarrow> [] | Some f \<Rightarrow> [Exit cur])))"

definition enterCalls :: "('c, 'a) machine \<Rightarrow> string \<Rightarrow> event list" where
  "enterCalls m n =
     (case states m n of
        None \<Rightarrow> []
      | Some st \<Rightarrow> (case h_enter st of None \<Rightarrow> [] | Some f \<Rightarrow> [Enter n]))"

text \<open>A machine with a state registered under the empty name, before and after entering it.\<close>

definition inc_state :: "(nat, unit) state_handlers" where
  "inc_state = \<lparr>h_enter = Some (\<lambda>args c. c + 1), h_update = None, h_exit = Some (\<lambda>c. c + 10)\<rparr>"

definition unnamed_machine :: "(nat, unit) machine" where
  "unnamed_machine = addState ''b'' inc_state (addState [] inc_state (new_machine 0))"

definition in_unnamed :: "(nat, unit) machine" where
  "in_unnamed = unnamed_machine\<lparr>previousState := None, currentState := Some [], ctx := 1, calls := [Enter []]\<rparr>"

section \<open>The agent controller (EnemyAI): target and state evaluation\<close>










text \<open>
  A controller's machine as its constructor leaves it: the four states are registered and
  the machine is in one of them (or in none yet).
\<close>

definition controller_ready :: "('c, 'a) machine \<Rightarrow> bool" where
  "controller_ready m \<longleftrightarrow>
     states m ''patrol'' \<noteq> None \<and> states m ''chase'' \<noteq> None
     \<and> states m ''attack'' \<noteq> None \<and> states m ''retreat'' \<noteq> None
     \<and> (case currentState m of None \<Rightarrow> True | Some cur \<Rightarrow> states m cur \<noteq> None)"

text \<open>
  The controller's constructor creates the machine, registers the four states
  (\<open>_initializeStates\<close>; the handler objects are arguments here) and enters \<open>patrol\<close>.
\<close>

definition initializeStates ::
  "('c, 'a) state_handlers \<Rightarrow> ('c, 'a) state_handlers \<Rightarrow> ('c, 'a) state_handlers
   \<Rightarrow> ('c, 'a) state_handlers \<Rightarrow> ('c, 'a) machine \<Rightarrow> ('c, 'a) machine" where
  "initializeStates patrol chase attack retreat m =
     addState ''retreat'' retreat (addState ''attack'' attack
       (addState ''chase'' chase (addState ''patrol'' patrol m)))"

definition constructMachine ::
  "'c \<Rightarrow> ('c, 'a) state_handlers \<Rightarrow> ('c, 'a) state_handlers \<Rightarrow> ('c, 'a) state_handlers
   \<Rightarrow> ('c, 'a) state_handlers \<Rightarrow> error + bool \<times> ('c, 'a) machine" where
  "constructMachine c patrol chase attack retreat =
     setState ''patrol'' [] (initializeStates patrol chase attack retreat (new_machine c))"






section \<open>The grid pathfinder (AStar)\<close>

text \<open>
  \<open>Math.floor(v / tileSize)\<close>: the grid coordinate of a world coordinate. With a zero
  tile size the quotient is an infinity or NaN, and \<open>Math.floor\<close> leaves it so.
\<close>

definition js_floor :: "real jsnum \<Rightarrow> int jsnum" where
  "js_floor v = (case v of Num a \<Rightarrow> Num \<lfloor>a\<rfloor> | PosInf \<Rightarrow> PosInf | NegInf \<Rightarrow> NegInf | NaN \<Rightarrow> NaN)"

definition toCell :: "real \<Rightarrow> real \<Rightarrow> int jsnum" where
  "toCell v tileSize = js_floor (js_div v tileSize)"

definition js_ge0 :: "int jsnum \<Rightarrow> bool" where
  "js_ge0 v = (case v of Num a \<Rightarrow> a \<ge> 0 | PosInf \<Rightarrow> True | NegInf \<Rightarrow> False | NaN \<Rightarrow> False)"

definition js_lt_len :: "int jsnum \<Rightarrow> nat \<Rightarrow> bool" where
  "js_lt_len v n = (case v of Num a \<Rightarrow> a < int n | PosInf \<Rightarrow> False | NegInf \<Rightarrow> True | NaN \<Rightarrow> False)"

text \<open>
  \<open>isValidNode\<close>: \<open>node.x >= 0 && node.x < map[0].length && node.y >= 0 && node.y < map.length\<close>.
  The conjunction stops at the first false operand; \<open>map[0].length\<close> throws a TypeError
  on a map without rows.
\<close>

definition isValidNode :: "int jsnum \<times> int jsnum \<Rightarrow> grid \<Rightarrow> error + bool" where
  "isValidNode node m =
     (if \<not> js_ge0 (fst node) then Inr False
      else (case m of
              [] \<Rightarrow> Inl TypeError
            | row0 # _ \<Rightarrow>
                Inr (js_lt_len (fst node) (length row0) \<and> js_ge0 (snd node)
                     \<and> js_lt_len (snd node) (length m))))"

text \<open>
  \<open>isWalkable\<close> on a node with integer coordinates: a valid node whose tile
  \<open>map[y][x]\<close> is 0, 4, 5 or 6. A tile that reads as \<open>undefined\<close> (a short row) is
  not walkable.
\<close>

definition isWalkable :: "int \<times> int \<Rightarrow> grid \<Rightarrow> error + bool" where
  "isWalkable node m =
     (case isValidNode (Num (fst node), Num (snd node)) m of
        Inl e \<Rightarrow> Inl e
      | Inr valid \<Rightarrow>
          if \<not> valid then Inr False
          else (case at_index (m ! nat (snd node)) (fst node) of
                  None \<Rightarrow> Inr False
                | Some tileType \<Rightarrow>
                    Inr (tileType = 0 \<or> tileType = 4 \<or> tileType = 5 \<or> tileType = 6)))"

definition directions :: "(int \<times> int) list" where
  "directions = [(0, -1), (0, 1), (-1, 0), (1, 0)]"

fun neighborsIn :: "(int \<times> int) list \<Rightarrow> int \<times> int \<Rightarrow> grid \<Rightarrow> error + (int \<times> int) list" where
  "neighborsIn [] node m = Inr []"
| "neighborsIn (dir # dirs) node m =
     (let neighbor = (fst node + fst dir, snd node + snd dir) in
      case isWalkable neighbor m of
        Inl e \<Rightarrow> Inl e
      | Inr w \<Rightarrow>
          (case neighborsIn dirs node m of
             Inl e \<Rightarrow> Inl e
           | Inr rest \<Rightarrow> Inr (if w then neighbor # rest else rest)))"

definition getNeighbors :: "int \<times> int \<Rightarrow> grid \<Rightarrow> error + (int \<times> int) list" where
  "getNeighbors node m = neighborsIn directions node m"

definition heuristic :: "int \<times> int \<Rightarrow> int \<times> int \<Rightarrow> int" where
  "heuristic a b = \<bar>fst a - fst b\<bar> + \<bar>snd a - snd b\<bar>"

text \<open>
  A search node \<open>{x, y, g, h, f, parent}\<close>. A node's parent is always a node that has
  already been taken off the open list, and only nodes on the open list are ever updated,
  so a parent is never changed after it has been linked: the parent is held by value.
\<close>

datatype pnode = PNode (nodeX: int) (nodeY: int) (nodeG: int) (nodeH: int) (nodeF: int)
  (nodeParent: "pnode option")

definition cell :: "pnode \<Rightarrow> int \<times> int" where
  "cell n = (nodeX n, nodeY n)"

record waypoint =
  wx :: real
  wy :: real
  gridX :: int
  gridY :: int

definition toWaypoint :: "real \<Rightarrow> pnode \<Rightarrow> waypoint" where
  "toWaypoint tileSize n =
     \<lparr> wx = real_of_int (nodeX n) * tileSize + tileSize / 2,
       wy = real_of_int (nodeY n) * tileSize + tileSize / 2,
       gridX = nodeX n, gridY = nodeY n \<rparr>"

text \<open>
  \<open>reconstructPath\<close>: walk the parent links, putting each node's waypoint at the front,
  then drop the first waypoint (the start).
\<close>

fun walkParents :: "real \<Rightarrow> pnode \<Rightarrow> waypoint list \<Rightarrow> waypoint list" where
  "walkParents tileSize (PNode x y gc hc fc par) path =
     (let path' = toWaypoint tileSize (PNode x y gc hc fc par) # path in
      case par of None \<Rightarrow> path' | Some p \<Rightarrow> walkParents tileSize p path')"

definition reconstructPath :: "pnode \<Rightarrow> real \<Rightarrow> waypoint list" where
  "reconstructPath node tileSize =
     (let path = walkParents tileSize node [] in
      if length path > 0 then tl path else path)"

text \<open>
  The scan for the open node of least \<open>f\<close>: the first such node in list order wins.
\<close>

definition minIndex :: "pnode list \<Rightarrow> nat" where
  "minIndex openList =
     foldl (\<lambda>currentIndex i.
              if nodeF (openList ! i) < nodeF (openList ! currentIndex) then i else currentIndex)
       0 [1 ..< length openList]"

fun findIndex :: "('a \<Rightarrow> bool) \<Rightarrow> 'a list \<Rightarrow> nat option" where
  "findIndex P [] = None"
| "findIndex P (a # as) =
     (if P a then Some 0 else (case findIndex P as of None \<Rightarrow> None | Some i \<Rightarrow> Some (Suc i)))"

text \<open>The body of the loop over the neighbours of the current node.\<close>

definition processNeighbor ::
  "int \<times> int \<Rightarrow> pnode \<Rightarrow> (int \<times> int) set \<Rightarrow> pnode list \<Rightarrow> int \<times> int \<Rightarrow> pnode list" where
  "processNeighbor goalNode current closedList openList neighbor =
     (if neighbor \<in> closedList then openList
      else
        let gScore = nodeG current + 1 in
        case findIndex (\<lambda>node. nodeX node = fst neighbor \<and> nodeY node = snd neighbor) openList of
          None \<Rightarrow>
            let hn = heuristic neighbor goalNode in
            openList @ [PNode (fst neighbor) (snd neighbor) gScore hn (gScore + hn) (Some current)]
        | Some i \<Rightarrow>
            let existingNode = openList ! i in
            if gScore < nodeG existingNode
            then openList[i := PNode (nodeX existingNode) (nodeY existingNode) gScore
                                 (nodeH existingNode) (gScore + nodeH existingNode) (Some current)]
            else openList)"

text \<open>
  The main loop, with a bound on the number of iterations; running out of it is the
  error \<open>OutOfFuel\<close>, which \<open>findPath\<close> is shown never to return. \<open>Inr None\<close> is the
  result \<open>null\<close>.
\<close>

fun searchLoop ::
  "nat \<Rightarrow> real \<Rightarrow> grid \<Rightarrow> int \<times> int \<Rightarrow> pnode list \<Rightarrow> (int \<times> int) set
   \<Rightarrow> error + waypoint list option" where
  "searchLoop 0 tileSize m goalNode openList closedList = Inl OutOfFuel"
| "searchLoop (Suc fuel) tileSize m goalNode openList closedList =
     (if openList = [] then Inr None
      else
        let currentIndex = minIndex openList;
            current = openList ! currentIndex
        in if nodeX current = fst goalNode \<and> nodeY current = snd goalNode
           then Inr (Some (reconstructPath current tileSize))
           else
             let openList1 = take currentIndex openList @ drop (Suc currentIndex) openList;
                 closedList1 = insert (nodeX current, nodeY current) closedList
             in case getNeighbors (nodeX current, nodeY current) m of
                  Inl e \<Rightarrow> Inl e
                | Inr neighbors \<Rightarrow>
                    searchLoop fuel tileSize m goalNode
                      (foldl (processNeighbor goalNode current closedList1) openList1 neighbors)
                      closedList1)"

text \<open>
  The number of cells of the grid; the loop closes one cell more in every iteration that
  does not return, so one iteration more than this is enough.
\<close>

definition gridCells :: "grid \<Rightarrow> nat" where
  "gridCells m = (case m of [] \<Rightarrow> 0 | row0 # _ \<Rightarrow> length m * length row0)"

text \<open>
  \<open>findPath(start, goal, map, tileSize)\<close>. A node that \<open>isValidNode\<close> accepts has
  integer coordinates, so the last two cases of the coordinate match are never taken.
\<close>

definition findPath :: "point \<Rightarrow> point \<Rightarrow> grid \<Rightarrow> real \<Rightarrow> error + waypoint list option" where
  "findPath start goal m tileSize =
     (let startNode = (toCell (px start) tileSize, toCell (py start) tileSize);
          goalNode = (toCell (px goal) tileSize, toCell (py goal) tileSize)
      in case isValidNode startNode m of
           Inl e \<Rightarrow> Inl e
         | Inr startValid \<Rightarrow>
             if \<not> startValid then Inr None
             else (case isValidNode goalNode m of
                     Inl e \<Rightarrow> Inl e
                   | Inr goalValid \<Rightarrow>
                       if \<not> goalValid then Inr None
                       else (case (startNode, goalNode) of
                               ((Num sx, Num sy), (Num gx, Num gy)) \<Rightarrow>
                                 let hs = heuristic (sx, sy) (gx, gy);
                                     startPathNode = PNode sx sy 0 hs (0 + hs) None
                                 in searchLoop (Suc (gridCells m)) tileSize m (gx, gy)
                                      [startPathNode] {}
                             | _ \<Rightarrow> Inr None)))"

text \<open>
  \<open>simplifyPath(path)\<close>; \<open>None\<close> is a \<open>null\<close> path. The direction of a step is the
  pair of the signs of its two coordinate differences.
\<close>

definition simplifyStep ::
  "waypoint list \<Rightarrow> waypoint list \<times> (real \<times> real) option \<Rightarrow> nat
   \<Rightarrow> waypoint list \<times> (real \<times> real) option" where
  "simplifyStep path acc i =
     (let prev = path ! (i - 1);
          curr = path ! i;
          currentDirection = (sgn (wx curr - wx prev), sgn (wy curr - wy prev))
      in if Some currentDirection \<noteq> snd acc
         then (fst acc @ [prev], Some currentDirection)
         else acc)"

definition simplifyPath :: "waypoint list option \<Rightarrow> waypoint list option" where
  "simplifyPath pathOpt =
     (case pathOpt of
        None \<Rightarrow> None
      | Some path \<Rightarrow>
          if length path \<le> 2 then Some path
          else
            let simplified = fst (foldl (simplifyStep path) ([path ! 0], None) [1 ..< length path])
            in Some (simplified @ [path ! (length path - 1)]))"

subsection \<open>Notions used to state the pathfinder's properties\<close>

text \<open>
  The tile \<open>map[y][x]\<close> of a cell, the two terrain classes, the cells inside the bounds
  that \<open>isValidNode\<close> checks, 4-adjacency, and the cells that can be reached from a
  start cell by steps onto adjacent cells that \<open>isWalkable\<close> accepts.
\<close>

definition tileAt :: "grid \<Rightarrow> int \<times> int \<Rightarrow> int option" where
  "tileAt m c = (case at_index m (snd c) of None \<Rightarrow> None | Some row \<Rightarrow> at_index row (fst c))"

definition walkableTile :: "grid \<Rightarrow> int \<times> int \<Rightarrow> bool" where
  "walkableTile m c \<longleftrightarrow> tileAt m c \<in> {Some EMPTY, Some ICE, Some FOREST, Some BASE}"

definition blockingTile :: "grid \<Rightarrow> int \<times> int \<Rightarrow> bool" where
  "blockingTile m c \<longleftrightarrow> tileAt m c \<in> {Some BRICK, Some STEEL, Some WATER}"

definition inGrid :: "grid \<Rightarrow> int \<times> int \<Rightarrow> bool" where
  "inGrid m c =
     (case m of
        [] \<Rightarrow> False
      | row0 # _ \<Rightarrow> 0 \<le> fst c \<and> fst c < int (length row0) \<and> 0 \<le> snd c \<and> snd c < int (length m))"

definition adjacent :: "int \<times> int \<Rightarrow> int \<times> int \<Rightarrow> bool" where
  "adjacent a b \<longleftrightarrow> \<bar>fst a - fst b\<bar> + \<bar>snd a - snd b\<bar> = 1"

fun stepwise :: "(int \<times> int) list \<Rightarrow> bool" where
  "stepwise (a # b # rest) = (adjacent a b \<and> stepwise (b # rest))"
| "stepwise rest = True"

inductive reach :: "grid \<Rightarrow> int \<times> int \<Rightarrow> int \<times> int \<Rightarrow> bool" for m start where
  reach_start: "reach m start start"
| reach_step: "reach m start a \<Longrightarrow> adjacent a b \<Longrightarrow> inGrid m b \<Longrightarrow> walkableTile m b \<Longrightarrow> reach m start b"

definition wcell :: "waypoint \<Rightarrow> int \<times> int" where
  "wcell w = (gridX w, gridY w)"

text \<open>
  The nodes on the parent chain of a node, root first, and what the search keeps true of
  every node it holds: the chain starts at the start cell with cost 0, every later node is
  a walkable cell other than the start, adjacent to its parent, with the parent's cost
  plus one.
\<close>

fun chainList :: "pnode \<Rightarrow> pnode list" where
  "chainList (PNode x y gc hc fc par) =
     (case par of None \<Rightarrow> [] | Some p \<Rightarrow> chainList p) @ [PNode x y gc hc fc par]"

fun chainOk :: "grid \<Rightarrow> int \<times> int \<Rightarrow> pnode \<Rightarrow> bool" where
  "chainOk m start (PNode x y gc hc fc par) =
     (case par of
        None \<Rightarrow> (x, y) = start \<and> gc = 0
      | Some p \<Rightarrow>
          inGrid m (x, y) \<and> walkableTile m (x, y) \<and> adjacent (cell p) (x, y)
          \<and> gc = nodeG p + 1 \<and> (x, y) \<noteq> start \<and> chainOk m start p)"

definition goodNode :: "grid \<Rightarrow> int \<times> int \<Rightarrow> int \<times> int \<Rightarrow> pnode \<Rightarrow> bool" where
  "goodNode m start goal n \<longleftrightarrow>
     chainOk m start n \<and> nodeH n = heuristic (cell n) goal \<and> nodeF n = nodeG n + nodeH n
     \<and> inGrid m (cell n)"

definition openInv ::
  "grid \<Rightarrow> int \<times> int \<Rightarrow> int \<times> int \<Rightarrow> pnode list \<Rightarrow> (int \<times> int) set \<Rightarrow> bool" where
  "openInv m start goal openList closedList \<longleftrightarrow>
     distinct (map cell openList)
     \<and> list_all (\<lambda>n. cell n \<notin> closedList \<and> goodNode m start goal n) openList
     \<and> closedList \<subseteq> {c. inGrid m c}
     \<and> (start \<in> closedList \<or> map cell openList = [start])"


text \<open>
  The neighbours that \<open>getNeighbors\<close> returns on a map with a row, and the open list
  after one iteration of the main loop that does not return.
\<close>

definition walkableNeighbors :: "grid \<Rightarrow> int \<times> int \<Rightarrow> (int \<times> int) list" where
  "walkableNeighbors m c =
     filter (\<lambda>nb. inGrid m nb \<and> walkableTile m nb)
       [(fst c, snd c - 1), (fst c, snd c + 1), (fst c - 1, snd c), (fst c + 1, snd c)]"

definition nextOpen :: "grid \<Rightarrow> int \<times> int \<Rightarrow> pnode list \<Rightarrow> (int \<times> int) set \<Rightarrow> pnode list" where
  "nextOpen m goal openList closedList =
     (let currentIndex = minIndex openList;
          current = openList ! currentIndex
      in foldl (processNeighbor goal current (insert (cell current) closedList))
           (take currentIndex openList @ drop (Suc currentIndex) openList)
           (walkableNeighbors m (cell current)))"

text \<open>The node that \<open>findPath\<close> puts on the open list first.\<close>

definition startNodeOf :: "int \<times> int \<Rightarrow> int \<times> int \<Rightarrow> pnode" where
  "startNodeOf s g = PNode (fst s) (snd s) 0 (heuristic s g) (0 + heuristic s g) None"





definition demo_grid :: grid where
  "demo_grid = [[EMPTY, EMPTY, EMPTY], [EMPTY, BRICK, EMPTY]]"

definition demo_path :: "waypoint list" where
  "demo_path = [\<lparr>wx = 48, wy = 16, gridX = 1, gridY = 0\<rparr>, \<lparr>wx = 80, wy = 16, gridX = 2, gridY = 0\<rparr>,
                \<lparr>wx = 80, wy = 48, gridX = 2, gridY = 1\<rparr>]"

definition brick_start_grid :: grid where
  "brick_start_grid = [[BRICK, EMPTY]]"

definition brick_goal_grid :: grid where
  "brick_goal_grid = [[EMPTY, BRICK]]"

definition turn_path :: "waypoint list" where
  "turn_path = [\<lparr>wx = 48, wy = 16, gridX = 1, gridY = 0\<rparr>, \<lparr>wx = 80, wy = 16, gridX = 2, gridY = 0\<rparr>,
                \<lparr>wx = 80, wy = 48, gridX = 2, gridY = 1\<rparr>]"

definition turn_path_simplified :: "waypoint list" where
  "turn_path_simplified =
     [\<lparr>wx = 48, wy = 16, gridX = 1, gridY = 0\<rparr>, \<lparr>wx = 48, wy = 16, gridX = 1, gridY = 0\<rparr>,
      \<lparr>wx = 80, wy = 16, gridX = 2, gridY = 0\<rparr>, \<lparr>wx = 80, wy = 48, gridX = 2, gridY = 1\<rparr>]"

definition guide_path :: "waypoint list" where
  "guide_path = [\<lparr>wx = 0, wy = 0, gridX = 0, gridY = 0\<rparr>, \<lparr>wx = 1, wy = 0, gridX = 1, gridY = 0\<rparr>,
                 \<lparr>wx = 2, wy = 0, gridX = 2, gridY = 0\<rparr>, \<lparr>wx = 2, wy = 1, gridX = 2, gridY = 1\<rparr>,
                 \<lparr>wx = 2, wy = 2, gridX = 2, gridY = 2\<rparr>]"

section \<open>Properties of the blackboard\<close>

lemma count_distinct_keys:
  "distinct (map fst m) \<Longrightarrow> length (filter (\<lambda>(k, t). t = v) m) = card {k. map_of m k = Some v}"
proof (induction m)
  case Nil
  then show ?case by simp
next
  case (Cons kv m)
  obtain k t where kv: "kv = (k, t)" by (cases kv)
  from Cons.prems kv have notin: "k \<notin> fst ` set m" and dist: "distinct (map fst m)" by auto
  then have none: "map_of m k = None" by (simp add: map_of_eq_None_iff)
  have fin: "finite {j. map_of m j = Some v}"
    by (rule finite_subset[of _ "dom (map_of m)"]) (auto simp: finite_dom_map_of)
  show ?case
  proof (cases "t = v")
    case True
    have "{j. map_of (kv # m) j = Some v} = insert k {j. map_of m j = Some v}"
      using kv True by auto
    moreover have "k \<notin> {j. map_of m j = Some v}" using none by simp
    ultimately show ?thesis using Cons.IH[OF dist] kv True fin by simp
  next
    case False
    have "{j. map_of (kv # m) j = Some v} = {j. map_of m j = Some v}"
      using kv False none by auto
    then show ?thesis using Cons.IH[OF dist] kv False by simp
  qed
qed

lemma playerTargetCount_agents:
  "distinct (map fst m) \<Longrightarrow> playerTargetCount m = agentsAssigned m ''player''"
  unfolding playerTargetCount_def agentsAssigned_def by (rule count_distinct_keys)

lemma baseTargetCount_agents:
  "distinct (map fst m) \<Longrightarrow> baseTargetCount m = agentsAssigned m ''base''"
proof -
  have "(\<lambda>(k::string, t). t \<noteq> ''player'' \<and> t = ''base'') = (\<lambda>(k, t). t = ''base'')"
    by auto
  then show "distinct (map fst m) \<Longrightarrow> baseTargetCount m = agentsAssigned m ''base''"
    unfolding baseTargetCount_def agentsAssigned_def by (simp add: count_distinct_keys)
qed

text \<open>
  Claim C3. A JavaScript map has one entry per agent id. If at least two agents are
  assigned \<open>'player'\<close> and none is assigned \<open>'base'\<close> when \<open>assignTarget\<close> is
  called, the call returns \<open>'base'\<close> whatever preference was requested; in every other
  situation it returns the requested preference, which is \<open>'player'\<close> when the caller
  passes none. In both cases the returned target is what the map then holds for the
  agent, and the entries of the other agents are as before.
\<close>

theorem assignTarget_balances:
  assumes "distinct (map fst (assignedTargets s))"
  shows "fst (assignTarget enemyId (Some requested) s) =
     (if agentsAssigned (assignedTargets s) ''player'' \<ge> 2 \<and> agentsAssigned (assignedTargets s) ''base'' = 0
      then ''base'' else requested)
   \<and> fst (assignTarget enemyId None s) =
     (if agentsAssigned (assignedTargets s) ''player'' \<ge> 2 \<and> agentsAssigned (assignedTargets s) ''base'' = 0
      then ''base'' else ''player'')
   \<and> map_of (assignedTargets (snd (assignTarget enemyId preferred s))) enemyId
       = Some (fst (assignTarget enemyId preferred s))
   \<and> (\<forall>other. other \<noteq> enemyId \<longrightarrow>
         map_of (assignedTargets (snd (assignTarget enemyId preferred s))) other
           = map_of (assignedTargets s) other)
   \<and> distinct (map fst (assignedTargets (snd (assignTarget enemyId preferred s))))"
  using assms
  by (simp add: assignTarget_def preferredOrDefault_def Let_def update_conv' distinct_update
      playerTargetCount_agents baseTargetCount_agents)

theorem assignTarget_balances_witness:
  "distinct (map fst (assignedTargets two_on_player))
   \<and> agentsAssigned (assignedTargets two_on_player) ''player'' = 2
   \<and> agentsAssigned (assignedTargets two_on_player) ''base'' = 0
   \<and> fst (assignTarget ''enemy_3'' (Some ''player'') two_on_player) = ''base''
   \<and> fst (assignTarget ''enemy_3'' None two_on_player) = ''base''
   \<and> map_of (assignedTargets (snd (assignTarget ''enemy_3'' (Some ''player'') two_on_player))) ''enemy_3''
       = Some ''base''
   \<and> map_of (assignedTargets (snd (assignTarget ''enemy_3'' (Some ''player'') two_on_player))) ''enemy_1''
       = Some ''player''
   \<and> distinct (map fst (assignedTargets base_covered))
   \<and> agentsAssigned (assignedTargets base_covered) ''player'' = 2
   \<and> agentsAssigned (assignedTargets base_covered) ''base'' = 1
   \<and> fst (assignTarget ''enemy_3'' (Some ''player'') base_covered) = ''player''
   \<and> map_of (assignedTargets (snd (assignTarget ''enemy_3'' (Some ''player'') base_covered))) ''enemy_3''
       = Some ''player''
   \<and> distinct (map fst (assignedTargets new_blackboard))
   \<and> agentsAssigned (assignedTargets new_blackboard) ''player'' = 0
   \<and> fst (assignTarget ''enemy_1'' (Some ''base'') new_blackboard) = ''base''
   \<and> fst (assignTarget ''enemy_1'' None new_blackboard) = ''player''
   \<and> map_of (assignedTargets (snd (assignTarget ''enemy_1'' (Some ''base'') new_blackboard))) ''enemy_1''
       = Some ''base''"
proof -
  have d2: "distinct (map fst (assignedTargets two_on_player))"
    by (simp add: two_on_player_def new_blackboard_def)
  have p2: "agentsAssigned (assignedTargets two_on_player) ''player'' = 2"
    using playerTargetCount_agents[OF d2]
    by (simp add: two_on_player_def new_blackboard_def playerTargetCount_def)
  have b2: "agentsAssigned (assignedTargets two_on_player) ''base'' = 0"
    using baseTargetCount_agents[OF d2]
    by (simp add: two_on_player_def new_blackboard_def baseTargetCount_def)
  have o2: "map_of (assignedTargets two_on_player) ''enemy_1'' = Some ''player''"
    by (simp add: two_on_player_def new_blackboard_def)
  have d3: "distinct (map fst (assignedTargets base_covered))"
    by (simp add: base_covered_def new_blackboard_def)
  have p3: "agentsAssigned (assignedTargets base_covered) ''player'' = 2"
    using playerTargetCount_agents[OF d3]
    by (simp add: base_covered_def new_blackboard_def playerTargetCount_def)
  have b3: "agentsAssigned (assignedTargets base_covered) ''base'' = 1"
    using baseTargetCount_agents[OF d3]
    by (simp add: base_covered_def new_blackboard_def baseTargetCount_def)
  have d0: "distinct (map fst (assignedTargets new_blackboard))"
    by (simp add: new_blackboard_def)
  have p0: "agentsAssigned (assignedTargets new_blackboard) ''player'' = 0"
    using playerTargetCount_agents[OF d0]
    by (simp add: new_blackboard_def playerTargetCount_def)
  note t2 = assignTarget_balances[OF d2, of "''enemy_3''" "''player''" "Some ''player''"]
  note t3 = assignTarget_balances[OF d3, of "''enemy_3''" "''player''" "Some ''player''"]
  note t0 = assignTarget_balances[OF d0, of "''enemy_1''" "''base''" "Some ''base''"]
  have r2: "fst (assignTarget ''enemy_3'' (Some ''player'') two_on_player) = ''base''"
    "fst (assignTarget ''enemy_3'' None two_on_player) = ''base''"
    using t2 p2 b2 by simp_all
  have m2: "map_of (assignedTargets (snd (assignTarget ''enemy_3'' (Some ''player'') two_on_player))) ''enemy_3''
       = Some ''base''"
    using t2 r2 by simp
  have f2: "map_of (assignedTargets (snd (assignTarget ''enemy_3'' (Some ''player'') two_on_player))) ''enemy_1''
       = Some ''player''"
    using t2 o2 by simp
  have r3: "fst (assignTarget ''enemy_3'' (Some ''player'') base_covered) = ''player''"
    using t3 b3 by simp
  have m3: "map_of (assignedTargets (snd (assignTarget ''enemy_3'' (Some ''player'') base_covered))) ''enemy_3''
       = Some ''player''"
    using t3 r3 by simp
  have r0: "fst (assignTarget ''enemy_1'' (Some ''base'') new_blackboard) = ''base''"
    "fst (assignTarget ''enemy_1'' None new_blackboard) = ''player''"
    using t0 p0 by simp_all
  have m0: "map_of (assignedTargets (snd (assignTarget ''enemy_1'' (Some ''base'') new_blackboard))) ''enemy_1''
       = Some ''base''"
    using t0 r0 by simp
  from d2 p2 b2 r2 m2 f2 d3 p3 b3 r3 m3 d0 p0 r0 m0 show ?thesis by simp
qed

lemma clamp_cases:
  "js_min (Num 100) (js_max (Num 0) v) = NaN
   \<or> (\<exists>r. js_min (Num 100) (js_max (Num 0) v) = Num r \<and> 0 \<le> r \<and> r \<le> 100)"
  by (cases v) auto

lemma threatLevel_in_range_or_NaN:
  "getThreatLevel (calculateThreatLevel player s) = NaN
   \<or> (\<exists>r. getThreatLevel (calculateThreatLevel player s) = Num r \<and> 0 \<le> r \<and> r \<le> 100)"
proof (cases player)
  case None
  then show ?thesis by (simp add: calculateThreatLevel_def getThreatLevel_def)
next
  case (Some p)
  show ?thesis
  proof (cases "isDestroyed p")
    case True
    with Some show ?thesis by (simp add: calculateThreatLevel_def getThreatLevel_def)
  next
    case False
    with Some obtain v where
      "getThreatLevel (calculateThreatLevel player s) = js_min (Num 100) (js_max (Num 0) v)"
      by (simp add: calculateThreatLevel_def getThreatLevel_def Let_def)
    then show ?thesis using clamp_cases[of v] by simp
  qed
qed

lemma js_number_small: "\<bar>r\<bar> \<le> 10 ^ 302 \<Longrightarrow> js_number r = Num r"
proof -
  assume a: "\<bar>r\<bar> \<le> 10 ^ 302"
  have "(10::real) ^ 302 < 2 ^ 1024 - 2 ^ 970" by simp
  with a show ?thesis unfolding js_number_def by (auto simp: abs_le_iff)
qed

lemma threatLevel_in_range_of_numbers:
  assumes "starLevel p = Num a" and "lives p = Num b"
    and "\<bar>a\<bar> \<le> 10 ^ 300" and "\<bar>b\<bar> \<le> 10 ^ 300"
  shows "\<exists>r. getThreatLevel (calculateThreatLevel (Some p) s) = Num r \<and> 0 \<le> r \<and> r \<le> 100"
proof -
  define K :: real where "K = 10 ^ 300"
  have K: "1 \<le> K" "\<bar>a\<bar> \<le> K" "\<bar>b\<bar> \<le> K" using assms(3,4) by (simp_all add: K_def)
  have "(10::real) ^ 302 = 100 * K" by (simp add: K_def)
  then have B: "\<And>x. \<bar>x\<bar> \<le> 100 * K \<Longrightarrow> js_number x = Num x"
    using js_number_small by simp
  have n: "js_number (a * 10) = Num (a * 10)" "js_number (b * 5) = Num (b * 5)"
    "js_number (50 + a * 10) = Num (50 + a * 10)" "js_number (50 + b * 5) = Num (50 + b * 5)"
    "js_number (50 + a * 10 + b * 5) = Num (50 + a * 10 + b * 5)"
    "js_number (50 + 20) = Num (50 + 20)"
    "js_number (50 + a * 10 + 20) = Num (50 + a * 10 + 20)"
    "js_number (50 + b * 5 + 20) = Num (50 + b * 5 + 20)"
    "js_number (50 + a * 10 + b * 5 + 20) = Num (50 + a * 10 + b * 5 + 20)"
    using K by (auto intro!: B)
  show ?thesis
    using assms(1,2) n
    by (auto simp: calculateThreatLevel_def getThreatLevel_def Let_def js_truthy_def)
qed

text \<open>
  Claim C9. \<open>calculateThreatLevel\<close> is to leave a threat level between 0 and 100
  whatever the star level, the lives and the number of active agents are. The clamp
  \<open>Math.min(100, Math.max(0, threat))\<close> bounds every number and both infinities, so
  the stored value is in the range while the star level and the lives are numbers of
  magnitude up to \<open>1e300\<close>, negative ones included
  (\<open>threatLevel_in_range_of_numbers\<close>); but the clamp passes NaN through
  (\<open>threatLevel_in_range_or_NaN\<close>). With a star level of \<open>1e308\<close> and \<open>-1e308\<close>
  lives the two products overflow to the two infinities, their sum is NaN, and NaN is
  stored; the same happens when the two fields hold the infinities themselves.
\<close>

theorem calculateThreatLevel_stores_NaN:
  "getThreatLevel (calculateThreatLevel (Some extreme_player) new_blackboard) = NaN
   \<and> getThreatLevel (calculateThreatLevel (Some infinite_player) new_blackboard) = NaN"
proof -
  have d: "\<not> isDestroyed extreme_player" "js_truthy (starLevel extreme_player)"
    "js_truthy (lives extreme_player)"
    by (simp_all add: extreme_player_def js_truthy_def)
  have a: "js_mul (starLevel extreme_player) (Num 10) = PosInf"
    by (simp add: extreme_player_def js_number_def)
  have b: "js_mul (lives extreme_player) (Num 5) = NegInf"
    by (simp add: extreme_player_def js_number_def)
  have 1: "getThreatLevel (calculateThreatLevel (Some extreme_player) new_blackboard) = NaN"
    by (simp add: calculateThreatLevel_def getThreatLevel_def Let_def d a b)
  have 2: "getThreatLevel (calculateThreatLevel (Some infinite_player) new_blackboard) = NaN"
    by (simp add: calculateThreatLevel_def getThreatLevel_def Let_def infinite_player_def
        js_truthy_def)
  from 1 2 show ?thesis ..
qed

text \<open>
  Claim C5. One call of \<open>removeTargetAssignment\<close> removes the agent's assigned target,
  flanking slot, patrol index, position and attacking flag: each map afterwards is the map
  before with the agent's key absent and every other key as it was, and the attacking set
  has lost exactly that id.
\<close>

theorem removeTargetAssignment_purges:
  "map_of (assignedTargets (removeTargetAssignment enemyId s)) = (map_of (assignedTargets s))(enemyId := None)
   \<and> map_of (flankingPositions (removeTargetAssignment enemyId s)) = (map_of (flankingPositions s))(enemyId := None)
   \<and> map_of (assignedPatrolPoints (removeTargetAssignment enemyId s)) = (map_of (assignedPatrolPoints s))(enemyId := None)
   \<and> map_of (enemyPositions (removeTargetAssignment enemyId s)) = (map_of (enemyPositions s))(enemyId := None)
   \<and> attackingEnemies (removeTargetAssignment enemyId s) = attackingEnemies s - {enemyId}"
  by (simp add: removeTargetAssignment_def delete_conv')

lemma length_update_le: "length (AList.update k v m) \<le> Suc (length m)"
  by (induction m) auto

lemma length_delete_le: "length (AList.delete k m) \<le> length m"
  by (simp add: AList.delete_eq)

lemma calc_flank_cases:
  "snd (calculateFlankingPosition sc enemyId enemyPos s) = s
   \<or> (\<exists>pos. snd (calculateFlankingPosition sc enemyId enemyPos s)
        = s\<lparr>flankingPositions := AList.update enemyId pos (flankingPositions s)\<rparr>)"
  by (auto simp: calculateFlankingPosition_def reserveSlot_def Let_def split: option.splits)

lemma bb_step_flank_inv: "bb_step s s' \<Longrightarrow> flank_inv s \<Longrightarrow> flank_inv s'"
proof (induction rule: bb_step.induct)
  case (step_calculateFlankingPosition s sc enemyId enemyPos)
  from calc_flank_cases[of sc enemyId enemyPos s] show ?case
  proof
    assume "snd (calculateFlankingPosition sc enemyId enemyPos s) = s"
    with step_calculateFlankingPosition show ?thesis by simp
  next
    assume "\<exists>pos. snd (calculateFlankingPosition sc enemyId enemyPos s)
        = s\<lparr>flankingPositions := AList.update enemyId pos (flankingPositions s)\<rparr>"
    then obtain pos where e: "snd (calculateFlankingPosition sc enemyId enemyPos s)
        = s\<lparr>flankingPositions := AList.update enemyId pos (flankingPositions s)\<rparr>" ..
    show ?thesis
      using step_calculateFlankingPosition length_update_le[of enemyId pos "flankingPositions s"]
      by (simp add: e flank_inv_def canJoinFlanking_def)
  qed
next
  case (step_removeTargetAssignment s enemyId)
  then show ?case using length_delete_le[of enemyId "flankingPositions s"]
    by (simp add: flank_inv_def removeTargetAssignment_def)
next
  case (step_releaseFlankingSlot s enemyId)
  then show ?case using length_delete_le[of enemyId "flankingPositions s"]
    by (simp add: flank_inv_def releaseFlankingSlot_def)
qed (auto simp: flank_inv_def updatePlayerInfo_def assignTarget_def Let_def updateEnemyPosition_def
      markAsAttacking_def markAsNotAttacking_def setPatrolIndex_def calculateThreatLevel_def
      blackboard_clear_def blackboard_update_def split: option.splits)

lemma one_flanker_value:
  "flankingPositions one_flanker = [(''enemy_1'', \<lparr>px = 400, py = 520, side = ''bottom''\<rparr>)]"
  by (simp add: one_flanker_def seen_player_def open_scene_def calculateFlankingPosition_def
      updatePlayerInfo_def new_blackboard_def prioritizeFlankingPositions_def potentialPositions_def
      priorityFor_def indexOf_def isPositionOccupied_def isPositionValid_def isPositionSafelyWalkable_def
      isPositionWalkable_def reserveSlot_def Let_def)


text \<open>
  Claim C4. In every blackboard state reached from the constructor by blackboard
  operations, \<open>calculateFlankingPosition\<close> being called only when \<open>canJoinFlanking\<close>
  holds, the flanking map has at most \<open>maxFlankingEnemies\<close> entries.
\<close>

theorem flanking_slots_bounded:
  "reachable s \<Longrightarrow> int (length (flankingPositions s)) \<le> maxFlankingEnemies s"
proof (induction rule: reachable.induct)
  case reachable_new
  show ?case by (simp add: new_blackboard_def)
next
  case (reachable_step s s')
  then show ?case using bb_step_flank_inv[of s s'] by (simp add: flank_inv_def)
qed

theorem flanking_slots_bounded_witness:
  "reachable one_flanker \<and> int (length (flankingPositions one_flanker)) = 1
   \<and> int (length (flankingPositions one_flanker)) \<le> maxFlankingEnemies one_flanker"
proof -
  have r0: "reachable seen_player"
    unfolding seen_player_def by (rule reachable_step[OF reachable_new step_updatePlayerInfo])
  have j: "canJoinFlanking seen_player"
    by (simp add: canJoinFlanking_def seen_player_def updatePlayerInfo_def new_blackboard_def)
  have r1: "reachable one_flanker"
    unfolding one_flanker_def
    by (rule reachable_step[OF r0 step_calculateFlankingPosition[OF j]])
  show ?thesis
    using r1 flanking_slots_bounded[OF r1] by (simp add: one_flanker_value)
qed

section \<open>Properties of the state machine\<close>

lemma leaveCurrent_keeps:
  "leaveCurrent m = Inr m1 \<Longrightarrow>
     states m1 = states m \<and> currentState m1 = currentState m \<and> previousState m1 = previousState m"
  by (auto simp: leaveCurrent_def split: option.splits if_splits)

lemma setState_twice:
  assumes "setState n args m = Inr (True, m1)"
  shows "setState n args' m1 = Inr (False, m1)"
proof -
  from assms obtain st where st: "states m n = Some st"
    by (auto simp: setState_def split: option.splits)
  from assms st have "states m1 = states m \<and> currentState m1 = Some n"
    by (auto simp: setState_def Let_def split: option.splits if_splits sum.splits
        dest: leaveCurrent_keeps)
  with st show ?thesis by (simp add: setState_def)
qed

lemma setState_exit_before_enter:
  assumes "setState n args m = Inr (True, m1)" and "currentState m \<noteq> Some []"
  shows "calls m1 = calls m @ exitCalls m @ enterCalls m n
         \<and> currentState m1 = Some n \<and> previousState m1 = currentState m"
  using assms
  by (auto simp: setState_def leaveCurrent_def truthy_def exitCalls_def enterCalls_def Let_def
      split: option.splits if_splits)

text \<open>
  Claim C6. A second \<open>setState\<close> with the name of the state just entered returns false
  and changes nothing (\<open>setState_twice\<close>), and a successful switch away from a state
  with a non-empty name calls that state's exit handler before the new state's enter
  handler (\<open>setState_exit_before_enter\<close>). The claim's second half speaks of every
  switch: for a state registered under the empty name the guard
  \<open>this.currentState && ...\<close> is false, and the switch from it to state \<open>b\<close> calls the
  enter handler of \<open>b\<close> only. Here both states have an exit handler that adds 10 to the
  context and an enter handler that adds 1; the context after the two switches is 2.
\<close>

theorem setState_skips_exit_of_empty_name:
  "setState [] [] unnamed_machine = Inr (True, in_unnamed)
   \<and> setState ''b'' [] in_unnamed
       = Inr (True, in_unnamed\<lparr>previousState := Some [], currentState := Some ''b'',
                                 ctx := 2, calls := [Enter [], Enter ''b'']\<rparr>)"
  by (simp add: setState_def leaveCurrent_def truthy_def unnamed_machine_def in_unnamed_def
      addState_def new_machine_def inc_state_def)


section \<open>Properties of the controller's state evaluation\<close>



lemma constructMachine_ready:
  "\<exists>m. constructMachine c patrol chase attack retreat = Inr (True, m)
       \<and> getCurrentState m = Some ''patrol'' \<and> controller_ready m"
  by (simp add: constructMachine_def setState_def leaveCurrent_def initializeStates_def addState_def
      new_machine_def getCurrentState_def controller_ready_def Let_def split: option.split)









section \<open>Properties of the pathfinder\<close>

subsection \<open>The scan, the neighbours and the open list\<close>

lemma minIndex_fold:
  fixes F :: "nat \<Rightarrow> int"
  defines "stp \<equiv> (\<lambda>ci i. if F i < F ci then i else ci)"
  shows "(foldl stp ci [a ..< b] = ci \<or> (a \<le> foldl stp ci [a ..< b] \<and> foldl stp ci [a ..< b] < b))
         \<and> F (foldl stp ci [a ..< b]) \<le> F ci
         \<and> (\<forall>j. a \<le> j \<and> j < b \<longrightarrow> F (foldl stp ci [a ..< b]) \<le> F j)"
proof (induction b)
  case 0
  show ?case by simp
next
  case (Suc b)
  show ?case
  proof (cases "a \<le> b")
    case False
    then show ?thesis by simp
  next
    case True
    then have e: "foldl stp ci [a ..< Suc b] = stp (foldl stp ci [a ..< b]) b" by simp
    show ?thesis
      unfolding e using Suc.IH True
      by (auto simp: stp_def less_Suc_eq)
  qed
qed

lemma minIndex_least:
  assumes "openList \<noteq> []"
  shows "minIndex openList < length openList
         \<and> (\<forall>j < length openList. nodeF (openList ! minIndex openList) \<le> nodeF (openList ! j))"
proof -
  let ?F = "\<lambda>i. nodeF (openList ! i)"
  have m: "minIndex openList = foldl (\<lambda>ci i. if ?F i < ?F ci then i else ci) 0 [1 ..< length openList]"
    by (simp add: minIndex_def)
  from minIndex_fold[of ?F 0 1 "length openList"] assms
  show ?thesis
    unfolding m[symmetric]
    by (metis One_nat_def length_greater_0_conv less_one linorder_not_less)
qed

lemma findIndex_None: "findIndex P xs = None \<longleftrightarrow> (\<forall>x \<in> set xs. \<not> P x)"
  by (induction xs) (auto split: option.splits)

lemma findIndex_Some:
  "findIndex P xs = Some i \<Longrightarrow> i < length xs \<and> P (xs ! i)"
  by (induction xs arbitrary: i) (auto split: option.splits if_splits)

lemma isValidNode_inGrid:
  "m \<noteq> [] \<Longrightarrow> isValidNode (Num x, Num y) m = Inr (inGrid m (x, y))"
  by (cases m) (auto simp: isValidNode_def inGrid_def js_ge0_def js_lt_len_def)

lemma tileAt_inGrid:
  "inGrid m c \<Longrightarrow> tileAt m c = at_index (m ! nat (snd c)) (fst c)"
  by (cases m) (auto simp: inGrid_def tileAt_def at_index_def)

lemma isWalkable_eq:
  assumes "m \<noteq> []"
  shows "isWalkable c m = Inr (inGrid m c \<and> walkableTile m c)"
proof (cases "inGrid m c")
  case False
  with assms show ?thesis
    using isValidNode_inGrid[OF assms, of "fst c" "snd c"] by (simp add: isWalkable_def)
next
  case True
  with assms show ?thesis
    using isValidNode_inGrid[OF assms, of "fst c" "snd c"] tileAt_inGrid[OF True]
    by (auto simp: isWalkable_def walkableTile_def EMPTY_def ICE_def FOREST_def BASE_def
        split: option.splits)
qed

lemma neighborsIn_eq:
  assumes "m \<noteq> []"
  shows "neighborsIn dirs c m
         = Inr (filter (\<lambda>nb. inGrid m nb \<and> walkableTile m nb)
                  (map (\<lambda>d. (fst c + fst d, snd c + snd d)) dirs))"
  by (induction dirs) (simp_all add: isWalkable_eq[OF assms] Let_def)

lemma getNeighbors_eq:
  assumes "m \<noteq> []"
  shows "getNeighbors c m
         = Inr (filter (\<lambda>nb. inGrid m nb \<and> walkableTile m nb)
                  [(fst c, snd c - 1), (fst c, snd c + 1), (fst c - 1, snd c), (fst c + 1, snd c)])"
  by (simp add: getNeighbors_def neighborsIn_eq[OF assms] directions_def)

lemma adjacent_cases:
  "adjacent c nb \<longleftrightarrow> nb \<in> set [(fst c, snd c - 1), (fst c, snd c + 1), (fst c - 1, snd c), (fst c + 1, snd c)]"
  by (cases c; cases nb) (auto simp: adjacent_def)

lemma cell_PNode [simp]: "cell (PNode x y gc hc fc par) = (x, y)"
  by (simp add: cell_def)

lemma findIndex_cell_None:
  "findIndex (\<lambda>node. nodeX node = fst nb \<and> nodeY node = snd nb) xs = None
   \<longleftrightarrow> nb \<notin> set (map cell xs)"
  by (cases nb) (auto simp: findIndex_None cell_def)

lemma findIndex_cell_Some:
  "findIndex (\<lambda>node. nodeX node = fst nb \<and> nodeY node = snd nb) xs = Some i
   \<Longrightarrow> i < length xs \<and> cell (xs ! i) = nb"
  by (cases nb) (auto simp: cell_def dest: findIndex_Some)

lemma processNeighbor_cells:
  "map cell (processNeighbor goal cur cl xs nb)
   = map cell xs @ (if nb \<notin> cl \<and> nb \<notin> set (map cell xs) then [nb] else [])"
proof (cases "findIndex (\<lambda>node. nodeX node = fst nb \<and> nodeY node = snd nb) xs")
  case None
  then have nin: "nb \<notin> set (map cell xs)" using findIndex_cell_None[of nb xs] by blast
  show ?thesis
  proof (cases "nb \<in> cl")
    case True
    then show ?thesis by (simp add: processNeighbor_def)
  next
    case False
    then have "processNeighbor goal cur cl xs nb
        = xs @ [PNode (fst nb) (snd nb) (nodeG cur + 1) (heuristic nb goal)
                  (nodeG cur + 1 + heuristic nb goal) (Some cur)]"
      using None by (simp add: processNeighbor_def Let_def)
    then show ?thesis using False nin by simp
  qed
next
  case (Some i)
  from findIndex_cell_Some[OF Some] have i: "i < length xs" "cell (xs ! i) = nb" by simp_all
  then have mem: "nb \<in> set (map cell xs)" by (metis length_map nth_map nth_mem)
  have upd: "map cell (xs[i := PNode (nodeX (xs ! i)) (nodeY (xs ! i)) g' h' f' p']) = map cell xs"
    for g' h' f' p'
    using i(1) by (simp add: map_update list_update_same_conv) (simp add: cell_def)
  show ?thesis using Some mem by (simp add: processNeighbor_def Let_def upd)
qed

lemma processNeighbor_all:
  assumes all: "list_all Q xs"
    and new: "nb \<notin> cl \<Longrightarrow>
       Q (PNode (fst nb) (snd nb) (nodeG cur + 1) (heuristic nb goal)
            (nodeG cur + 1 + heuristic nb goal) (Some cur))"
    and upd: "\<And>e. e \<in> set xs \<Longrightarrow> cell e = nb \<Longrightarrow> nb \<notin> cl \<Longrightarrow> Q e \<Longrightarrow>
       Q (PNode (nodeX e) (nodeY e) (nodeG cur + 1) (nodeH e) (nodeG cur + 1 + nodeH e) (Some cur))"
  shows "list_all Q (processNeighbor goal cur cl xs nb)"
proof (cases "nb \<in> cl")
  case True
  with all show ?thesis by (simp add: processNeighbor_def)
next
  case False
  show ?thesis
  proof (cases "findIndex (\<lambda>node. nodeX node = fst nb \<and> nodeY node = snd nb) xs")
    case None
    with all new[OF False] False show ?thesis by (simp add: processNeighbor_def Let_def)
  next
    case (Some i)
    from findIndex_cell_Some[OF Some] have i: "i < length xs" "cell (xs ! i) = nb" by simp_all
    have qe: "Q (xs ! i)" using all i(1) by (simp add: list_all_length)
    have "Q (PNode (nodeX (xs ! i)) (nodeY (xs ! i)) (nodeG cur + 1) (nodeH (xs ! i))
               (nodeG cur + 1 + nodeH (xs ! i)) (Some cur))"
      using upd[of "xs ! i"] i qe False by simp
    then have "list_all Q (xs[i := PNode (nodeX (xs ! i)) (nodeY (xs ! i)) (nodeG cur + 1)
               (nodeH (xs ! i)) (nodeG cur + 1 + nodeH (xs ! i)) (Some cur)])"
      using all by (auto simp: list_all_iff dest!: set_update_subset_insert[THEN subsetD])
    with all Some False show ?thesis by (simp add: processNeighbor_def Let_def)
  qed
qed




lemma foldl_cells:
  "distinct (map cell xs) \<Longrightarrow>
     distinct (map cell (foldl (processNeighbor goal cur cl) xs ns))
     \<and> set (map cell (foldl (processNeighbor goal cur cl) xs ns))
         \<subseteq> set (map cell xs) \<union> (set ns - cl)"
proof (induction ns arbitrary: xs)
  case Nil
  then show ?case by simp
next
  case (Cons nb ns)
  let ?ys = "processNeighbor goal cur cl xs nb"
  have d: "distinct (map cell ?ys)" using Cons.prems by (simp add: processNeighbor_cells)
  have s: "set (map cell ?ys) \<subseteq> set (map cell xs) \<union> (set (nb # ns) - cl)"
    by (auto simp: processNeighbor_cells)
  have c: "set ns - cl \<subseteq> set (nb # ns) - cl" by auto
  from Cons.IH[OF d] have d2: "distinct (map cell (foldl (processNeighbor goal cur cl) ?ys ns))"
    and s2: "set (map cell (foldl (processNeighbor goal cur cl) ?ys ns))
         \<subseteq> set (map cell ?ys) \<union> (set ns - cl)" by blast+
  from s2 s c have "set (map cell (foldl (processNeighbor goal cur cl) ?ys ns))
         \<subseteq> set (map cell xs) \<union> (set (nb # ns) - cl)" by blast
  with d2 show ?case by simp
qed





lemma getNeighbors_walkable: "m \<noteq> [] \<Longrightarrow> getNeighbors c m = Inr (walkableNeighbors m c)"
  by (simp add: getNeighbors_eq walkableNeighbors_def)

lemma walkableNeighbors_iff:
  "nb \<in> set (walkableNeighbors m c) \<longleftrightarrow> adjacent c nb \<and> inGrid m nb \<and> walkableTile m nb"
  unfolding walkableNeighbors_def adjacent_cases by auto

lemma searchLoop_empty: "searchLoop (Suc fuel) t m goal [] cl = Inr None"
  by simp

lemma searchLoop_goal:
  assumes "xs \<noteq> []" and "cell (xs ! minIndex xs) = goal"
  shows "searchLoop (Suc fuel) t m goal xs cl = Inr (Some (reconstructPath (xs ! minIndex xs) t))"
  using assms by (cases goal) (simp add: cell_def Let_def)

lemma searchLoop_step:
  assumes "xs \<noteq> []" and "cell (xs ! minIndex xs) \<noteq> goal" and "m \<noteq> []"
  shows "searchLoop (Suc fuel) t m goal xs cl
         = searchLoop fuel t m goal (nextOpen m goal xs cl) (insert (cell (xs ! minIndex xs)) cl)"
proof -
  have g: "getNeighbors (cell (xs ! minIndex xs)) m
           = Inr (walkableNeighbors m (cell (xs ! minIndex xs)))"
    using getNeighbors_walkable[OF assms(3)] by simp
  have n: "(nodeX (xs ! minIndex xs) = fst goal \<and> nodeY (xs ! minIndex xs) = snd goal) = False"
    using assms(2) by (cases goal) (simp add: cell_def)
  have c: "(nodeX (xs ! minIndex xs), nodeY (xs ! minIndex xs)) = cell (xs ! minIndex xs)"
    by (simp add: cell_def)
  show ?thesis
    unfolding searchLoop.simps Let_def n c nextOpen_def using assms(1) by (simp add: g)
qed

subsection \<open>Parent chains and reconstructed paths\<close>



lemma chainOk_reach: "chainOk m start n \<Longrightarrow> reach m start (cell n)"
proof (induction n rule: chainList.induct)
  case (1 x y gc hc fc par)
  show ?case
  proof (cases par)
    case None
    with 1 show ?thesis by (auto intro: reach_start)
  next
    case (Some p)
    with 1 show ?thesis by (auto intro: reach_step)
  qed
qed

lemma stepwise_snoc: "stepwise (cs @ [a]) \<longleftrightarrow> stepwise cs \<and> (cs = [] \<or> adjacent (last cs) a)"
  by (induction cs rule: stepwise.induct) auto

lemma chainOk_cells:
  "chainOk m start n \<Longrightarrow>
     \<exists>cs. map cell (chainList n) = start # cs \<and> int (length cs) = nodeG n
          \<and> list_all (\<lambda>c. inGrid m c \<and> walkableTile m c \<and> c \<noteq> start) cs
          \<and> stepwise (start # cs) \<and> last (start # cs) = cell n"
proof (induction n rule: chainList.induct)
  case (1 x y gc hc fc par)
  show ?case
  proof (cases par)
    case None
    with 1 show ?thesis by simp
  next
    case (Some p)
    with 1 have ok: "chainOk m start p" and st: "inGrid m (x, y)" "walkableTile m (x, y)"
      "adjacent (cell p) (x, y)" "gc = nodeG p + 1" "(x, y) \<noteq> start" by simp_all
    from 1(1)[OF Some ok] obtain cs where "map cell (chainList p) = start # cs
      \<and> int (length cs) = nodeG p \<and> list_all (\<lambda>c. inGrid m c \<and> walkableTile m c \<and> c \<noteq> start) cs
      \<and> stepwise (start # cs) \<and> last (start # cs) = cell p" ..
    then have cs: "map cell (chainList p) = start # cs"
      "int (length cs) = nodeG p" "list_all (\<lambda>c. inGrid m c \<and> walkableTile m c \<and> c \<noteq> start) cs"
      "stepwise (start # cs)" "last (start # cs) = cell p" by simp_all
    have a: "map cell (chainList (PNode x y gc hc fc par)) = start # (cs @ [(x, y)])"
      using Some cs(1) by simp
    have b: "stepwise (start # (cs @ [(x, y)]))"
      using stepwise_snoc[of "start # cs" "(x, y)"] cs(4,5) st(3) by simp
    show ?thesis
      using a b cs(2,3) st by (intro exI[of _ "cs @ [(x, y)]"]) simp
  qed
qed

lemma set_tl_subset: "a \<in> set (tl as) \<Longrightarrow> a \<in> set as"
  by (cases as) auto

lemma walkParents_chain: "walkParents t n acc = map (toWaypoint t) (chainList n) @ acc"
proof (induction n arbitrary: acc rule: chainList.induct)
  case (1 x y gc hc fc par)
  then show ?case by (cases par) (simp_all add: Let_def)
qed

lemma wcell_toWaypoint: "wcell (toWaypoint t n) = cell n"
  by (simp add: wcell_def toWaypoint_def cell_def)

lemma reconstructPath_cells:
  assumes "chainOk m start n"
  shows "int (length (reconstructPath n t)) = nodeG n
         \<and> list_all (\<lambda>c. inGrid m c \<and> walkableTile m c \<and> c \<noteq> start) (map wcell (reconstructPath n t))
         \<and> stepwise (start # map wcell (reconstructPath n t))
         \<and> last (start # map wcell (reconstructPath n t)) = cell n
         \<and> list_all (\<lambda>w. wx w = real_of_int (gridX w) * t + t / 2 \<and> wy w = real_of_int (gridY w) * t + t / 2)
              (reconstructPath n t)"
proof -
  from chainOk_cells[OF assms] obtain cs where "map cell (chainList n) = start # cs
    \<and> int (length cs) = nodeG n \<and> list_all (\<lambda>c. inGrid m c \<and> walkableTile m c \<and> c \<noteq> start) cs
    \<and> stepwise (start # cs) \<and> last (start # cs) = cell n" ..
  then have cs: "map cell (chainList n) = start # cs"
    "int (length cs) = nodeG n" "list_all (\<lambda>c. inGrid m c \<and> walkableTile m c \<and> c \<noteq> start) cs"
    "stepwise (start # cs)" "last (start # cs) = cell n" by simp_all
  have r: "reconstructPath n t = tl (map (toWaypoint t) (chainList n))"
    by (simp add: reconstructPath_def walkParents_chain Let_def)
  have "map wcell (map (toWaypoint t) (chainList n)) = map cell (chainList n)"
    by (simp add: wcell_toWaypoint comp_def)
  then have w: "map wcell (reconstructPath n t) = cs"
    unfolding r using cs(1) by (simp add: map_tl)
  have c': "list_all (\<lambda>w. wx w = real_of_int (gridX w) * t + t / 2 \<and> wy w = real_of_int (gridY w) * t + t / 2)
              (reconstructPath n t)"
    unfolding r by (auto simp: list_all_iff toWaypoint_def dest!: set_tl_subset)
  have "length (reconstructPath n t) = length cs" using w by (metis length_map)
  with cs w c' show ?thesis by simp
qed

subsection \<open>One iteration keeps the invariant\<close>

lemma remove_index_cells:
  assumes "distinct (map cell xs)" and "i < length xs"
  shows "distinct (map cell (take i xs @ drop (Suc i) xs))
         \<and> cell (xs ! i) \<notin> set (map cell (take i xs @ drop (Suc i) xs))
         \<and> set (take i xs @ drop (Suc i) xs) \<subseteq> set xs"
proof -
  have "xs = take i xs @ xs ! i # drop (Suc i) xs" using assms(2) by (rule id_take_nth_drop)
  then have "map cell xs = map cell (take i xs) @ cell (xs ! i) # map cell (drop (Suc i) xs)"
    by (metis list.simps(9) map_append)
  with assms(1) have "distinct (map cell (take i xs) @ cell (xs ! i) # map cell (drop (Suc i) xs))"
    by simp
  then have "distinct (map cell (take i xs) @ map cell (drop (Suc i) xs))
      \<and> cell (xs ! i) \<notin> set (map cell (take i xs)) \<union> set (map cell (drop (Suc i) xs))"
    by auto
  moreover have "set (take i xs @ drop (Suc i) xs) \<subseteq> set xs"
    by (auto dest: in_set_takeD in_set_dropD)
  ultimately show ?thesis by simp
qed

lemma goodNode_child:
  assumes "goodNode m start goal cur" and "adjacent (cell cur) nb" and "inGrid m nb"
    and "walkableTile m nb" and "nb \<noteq> start" and "hn = heuristic nb goal"
  shows "goodNode m start goal (PNode (fst nb) (snd nb) (nodeG cur + 1) hn (nodeG cur + 1 + hn) (Some cur))"
  using assms by (simp add: goodNode_def)

lemma foldl_good:
  assumes "list_all (\<lambda>n. cell n \<notin> cl \<and> goodNode m start goal n) xs"
    and "goodNode m start goal cur" and "start \<in> cl"
    and "\<forall>nb \<in> set ns. adjacent (cell cur) nb \<and> inGrid m nb \<and> walkableTile m nb"
  shows "list_all (\<lambda>n. cell n \<notin> cl \<and> goodNode m start goal n)
           (foldl (processNeighbor goal cur cl) xs ns)"
  using assms(1,4)
proof (induction ns arbitrary: xs)
  case Nil
  then show ?case by simp
next
  case (Cons nb ns)
  let ?Q = "\<lambda>n. cell n \<notin> cl \<and> goodNode m start goal n"
  from Cons.prems(2) have nb: "adjacent (cell cur) nb" "inGrid m nb" "walkableTile m nb" by simp_all
  have "list_all ?Q (processNeighbor goal cur cl xs nb)"
  proof (rule processNeighbor_all[OF Cons.prems(1)])
    assume n: "nb \<notin> cl"
    with assms(3) have "nb \<noteq> start" by blast
    from goodNode_child[OF assms(2) nb this refl] n
    show "?Q (PNode (fst nb) (snd nb) (nodeG cur + 1) (heuristic nb goal)
            (nodeG cur + 1 + heuristic nb goal) (Some cur))" by simp
  next
    fix e assume e: "e \<in> set xs" "cell e = nb" "nb \<notin> cl" "?Q e"
    with assms(3) have ns: "nb \<noteq> start" by blast
    have h: "nodeH e = heuristic nb goal" using e(2,4) by (simp add: goodNode_def)
    have x: "nodeX e = fst nb" "nodeY e = snd nb" using e(2) by (auto simp: cell_def)
    from goodNode_child[OF assms(2) nb ns h] e(3)
    show "?Q (PNode (nodeX e) (nodeY e) (nodeG cur + 1) (nodeH e) (nodeG cur + 1 + nodeH e) (Some cur))"
      by (simp add: x h)
  qed
  moreover from Cons.prems(2) have "\<forall>nb \<in> set ns. adjacent (cell cur) nb \<and> inGrid m nb \<and> walkableTile m nb"
    by simp
  ultimately show ?case using Cons.IH by simp
qed

lemma openInv_current:
  assumes "openInv m start goal xs cl" and "xs \<noteq> []"
  shows "xs ! minIndex xs \<in> set xs \<and> cell (xs ! minIndex xs) \<notin> cl
         \<and> goodNode m start goal (xs ! minIndex xs) \<and> m \<noteq> []
         \<and> (\<forall>n \<in> set xs. nodeF (xs ! minIndex xs) \<le> nodeF n)"
proof -
  from minIndex_least[OF assms(2)] have i: "minIndex xs < length xs"
    and le: "\<forall>j < length xs. nodeF (xs ! minIndex xs) \<le> nodeF (xs ! j)" by simp_all
  then have mem: "xs ! minIndex xs \<in> set xs" by simp
  with assms(1) have q: "cell (xs ! minIndex xs) \<notin> cl" "goodNode m start goal (xs ! minIndex xs)"
    by (auto simp: openInv_def list_all_iff)
  then have "inGrid m (cell (xs ! minIndex xs))" by (simp add: goodNode_def)
  then have "m \<noteq> []" by (auto simp: inGrid_def)
  moreover from le have "\<forall>n \<in> set xs. nodeF (xs ! minIndex xs) \<le> nodeF n"
    by (auto simp: in_set_conv_nth)
  ultimately show ?thesis using mem q by simp
qed

lemma step_openInv:
  assumes inv: "openInv m start goal xs cl" and ne: "xs \<noteq> []"
  shows "openInv m start goal (nextOpen m goal xs cl) (insert (cell (xs ! minIndex xs)) cl)"
proof -
  let ?i = "minIndex xs"
  let ?cur = "xs ! ?i"
  let ?xs1 = "take ?i xs @ drop (Suc ?i) xs"
  let ?cl1 = "insert (cell ?cur) cl"
  let ?ns = "walkableNeighbors m (cell ?cur)"
  from minIndex_least[OF ne] have i: "?i < length xs" by simp
  from openInv_current[OF inv ne] have cur: "?cur \<in> set xs" "cell ?cur \<notin> cl" "goodNode m start goal ?cur"
    by simp_all
  from inv have d: "distinct (map cell xs)"
    and all: "list_all (\<lambda>n. cell n \<notin> cl \<and> goodNode m start goal n) xs"
    and sub: "cl \<subseteq> {c. inGrid m c}"
    and st: "start \<in> cl \<or> map cell xs = [start]" by (simp_all add: openInv_def)
  from remove_index_cells[OF d i] have d1: "distinct (map cell ?xs1)"
    and c1: "cell ?cur \<notin> set (map cell ?xs1)" and s1: "set ?xs1 \<subseteq> set xs" by simp_all
  have all1: "list_all (\<lambda>n. cell n \<notin> ?cl1 \<and> goodNode m start goal n) ?xs1"
    unfolding list_all_iff
  proof
    fix n assume n: "n \<in> set ?xs1"
    with s1 all have "cell n \<notin> cl \<and> goodNode m start goal n" by (auto simp: list_all_iff)
    moreover from n have "cell n \<in> set (map cell ?xs1)" by (simp only: set_map) (rule imageI)
    with c1 have "cell n \<noteq> cell ?cur" by metis
    ultimately show "cell n \<notin> ?cl1 \<and> goodNode m start goal n" by simp
  qed
  have st1: "start \<in> ?cl1"
  proof (cases "start \<in> cl")
    case True
    then show ?thesis by simp
  next
    case False
    with st have "map cell xs = [start]" by simp
    then have "length xs = 1" "cell (xs ! 0) = start"
      by (metis length_map length_Cons list.size(3) One_nat_def, metis length_greater_0_conv list.discI list.map_disc_iff nth_Cons_0 nth_map)
    with i have "cell ?cur = start" by simp
    then show ?thesis by simp
  qed
  have nbs: "\<forall>nb \<in> set ?ns. adjacent (cell ?cur) nb \<and> inGrid m nb \<and> walkableTile m nb"
    by (simp add: walkableNeighbors_iff)
  have n: "nextOpen m goal xs cl = foldl (processNeighbor goal ?cur ?cl1) ?xs1 ?ns"
    by (simp add: nextOpen_def Let_def)
  from foldl_good[OF all1 cur(3) st1 nbs]
  have g: "list_all (\<lambda>n. cell n \<notin> ?cl1 \<and> goodNode m start goal n) (nextOpen m goal xs cl)"
    unfolding n .
  from foldl_cells[OF d1, of goal ?cur ?cl1 ?ns]
  have dd: "distinct (map cell (nextOpen m goal xs cl))" unfolding n by simp
  from cur(3) have "inGrid m (cell ?cur)" by (simp add: goodNode_def)
  with sub have "?cl1 \<subseteq> {c. inGrid m c}" by simp
  with g dd st1 show ?thesis by (simp add: openInv_def)
qed

subsection \<open>The loop returns, and what it returns\<close>

lemma inGrid_card: "finite {c. inGrid m c} \<and> card {c. inGrid m c} = gridCells m"
proof (cases m)
  case Nil
  then show ?thesis by (simp add: inGrid_def gridCells_def)
next
  case (Cons row0 rest)
  have e: "{c. inGrid m c} = {0 ..< int (length row0)} \<times> {0 ..< int (length m)}"
    using Cons by (auto simp: inGrid_def)
  show ?thesis unfolding e using Cons by (simp add: gridCells_def nat_add_distrib algebra_simps)
qed

lemma card_close:
  assumes "c \<notin> cl" and "inGrid m c"
  shows "card ({c. inGrid m c} - insert c cl) < card ({c. inGrid m c} - cl)"
proof -
  have f: "finite ({c. inGrid m c} - cl)" using inGrid_card[of m] by simp
  have i: "c \<in> {c. inGrid m c} - cl" using assms by simp
  have "{c. inGrid m c} - insert c cl = ({c. inGrid m c} - cl) - {c}" by auto
  then show ?thesis using card_Diff1_less[OF f i] by simp
qed

lemma searchLoop_result:
  assumes "openInv m start goal xs cl" and "card ({c. inGrid m c} - cl) \<le> fuel"
  shows "searchLoop (Suc fuel) t m goal xs cl = Inr None
         \<or> (\<exists>n. goodNode m start goal n \<and> cell n = goal
                \<and> searchLoop (Suc fuel) t m goal xs cl = Inr (Some (reconstructPath n t)))"
  using assms
proof (induction fuel arbitrary: xs cl)
  case 0
  show ?case
  proof (cases "xs = []")
    case True
    then show ?thesis by simp
  next
    case False
    from openInv_current[OF "0.prems"(1) False]
    have cur: "cell (xs ! minIndex xs) \<notin> cl" "goodNode m start goal (xs ! minIndex xs)" by simp_all
    then have g: "inGrid m (cell (xs ! minIndex xs))" by (simp add: goodNode_def)
    from card_close[OF cur(1) g] "0.prems"(2) have False by simp
    then show ?thesis ..
  qed
next
  case (Suc k)
  show ?case
  proof (cases "xs = []")
    case True
    then show ?thesis by simp
  next
    case False
    from openInv_current[OF Suc.prems(1) False]
    have cur: "cell (xs ! minIndex xs) \<notin> cl" "goodNode m start goal (xs ! minIndex xs)" "m \<noteq> []"
      by simp_all
    show ?thesis
    proof (cases "cell (xs ! minIndex xs) = goal")
      case True
      from searchLoop_goal[OF False True] cur(2) True show ?thesis by blast
    next
      case ng: False
      from cur(2) have g: "inGrid m (cell (xs ! minIndex xs))" by (simp add: goodNode_def)
      from card_close[OF cur(1) g] Suc.prems(2)
      have c: "card ({c. inGrid m c} - insert (cell (xs ! minIndex xs)) cl) \<le> k" by simp
      from Suc.IH[OF step_openInv[OF Suc.prems(1) False] c]
      show ?thesis unfolding searchLoop_step[OF False ng cur(3), of "Suc k" t cl] .
    qed
  qed
qed

lemma isValidNode_True:
  "isValidNode (a, b) m = Inr True \<Longrightarrow> \<exists>x y. a = Num x \<and> b = Num y \<and> inGrid m (x, y)"
  by (cases m; cases a; cases b)
     (auto simp: isValidNode_def inGrid_def js_ge0_def js_lt_len_def split: if_splits)

lemma isValidNode_Num:
  "m \<noteq> [] \<Longrightarrow> isValidNode (Num x, Num y) m = Inr (inGrid m (x, y))"
  by (rule isValidNode_inGrid)

lemma isValidNode_total: "m \<noteq> [] \<Longrightarrow> \<exists>b. isValidNode node m = Inr b"
  by (cases m) (auto simp: isValidNode_def)

lemma findPath_search:
  assumes "toCell (px start) t = Num sx" "toCell (py start) t = Num sy"
    and "toCell (px goal) t = Num gx" "toCell (py goal) t = Num gy"
    and "inGrid m (sx, sy)" and "inGrid m (gx, gy)"
  shows "findPath start goal m t
         = searchLoop (Suc (gridCells m)) t m (gx, gy) [startNodeOf (sx, sy) (gx, gy)] {}"
proof -
  from assms(5) have m: "m \<noteq> []" by (auto simp: inGrid_def)
  show ?thesis
    using assms by (simp add: findPath_def Let_def isValidNode_Num[OF m] startNodeOf_def)
qed

lemma findPath_invalid:
  assumes "m \<noteq> []"
    and "toCell (px start) t = Num sx" "toCell (py start) t = Num sy"
    and "toCell (px goal) t = Num gx" "toCell (py goal) t = Num gy"
    and "\<not> inGrid m (sx, sy) \<or> \<not> inGrid m (gx, gy)"
  shows "findPath start goal m t = Inr None"
  using assms by (auto simp: findPath_def Let_def isValidNode_Num)

lemma findPath_Some:
  assumes "findPath start goal m t = Inr (Some path)"
  shows "\<exists>sx sy gx gy. toCell (px start) t = Num sx \<and> toCell (py start) t = Num sy
           \<and> toCell (px goal) t = Num gx \<and> toCell (py goal) t = Num gy
           \<and> inGrid m (sx, sy) \<and> inGrid m (gx, gy)"
proof -
  from assms have a: "isValidNode (toCell (px start) t, toCell (py start) t) m = Inr True"
    by (auto simp: findPath_def Let_def split: sum.splits if_splits)
  with assms have b: "isValidNode (toCell (px goal) t, toCell (py goal) t) m = Inr True"
    by (auto simp: findPath_def Let_def split: sum.splits if_splits)
  from isValidNode_True[OF a] isValidNode_True[OF b] show ?thesis by blast
qed

lemma openInv_initial:
  assumes "inGrid m s"
  shows "openInv m s g [startNodeOf s g] {}"
  using assms by (cases s) (simp add: openInv_def startNodeOf_def goodNode_def cell_def)

lemma findPath_result:
  assumes "toCell (px start) t = Num sx" "toCell (py start) t = Num sy"
    and "toCell (px goal) t = Num gx" "toCell (py goal) t = Num gy"
    and "inGrid m (sx, sy)" and "inGrid m (gx, gy)"
  shows "findPath start goal m t = Inr None
         \<or> (\<exists>n. goodNode m (sx, sy) (gx, gy) n \<and> cell n = (gx, gy)
                \<and> findPath start goal m t = Inr (Some (reconstructPath n t)))"
proof -
  have c: "card ({c. inGrid m c} - {}) \<le> gridCells m" using inGrid_card[of m] by simp
  have inv: "openInv m (sx, sy) (gx, gy) [startNodeOf (sx, sy) (gx, gy)] {}"
    by (rule openInv_initial[OF assms(5)])
  from searchLoop_result[OF inv c, of t]
  show ?thesis unfolding findPath_search[OF assms] .
qed

lemma findPath_unreachable:
  assumes "m \<noteq> []"
    and "toCell (px start) t = Num sx" "toCell (py start) t = Num sy"
    and "toCell (px goal) t = Num gx" "toCell (py goal) t = Num gy"
    and "\<not> reach m (sx, sy) (gx, gy)"
  shows "findPath start goal m t = Inr None"
proof (cases "inGrid m (sx, sy) \<and> inGrid m (gx, gy)")
  case False
  then show ?thesis using findPath_invalid[OF assms(1-5)] by blast
next
  case True
  then have i: "inGrid m (sx, sy)" "inGrid m (gx, gy)" by simp_all
  from findPath_result[OF assms(2-5) i] show ?thesis
  proof
    assume "\<exists>n. goodNode m (sx, sy) (gx, gy) n \<and> cell n = (gx, gy)
                \<and> findPath start goal m t = Inr (Some (reconstructPath n t))"
    then obtain n where "chainOk m (sx, sy) n" "cell n = (gx, gy)" by (auto simp: goodNode_def)
    with chainOk_reach[of m "(sx, sy)" n] assms(6) show ?thesis by simp
  qed simp
qed


subsection \<open>Returned waypoints\<close>

lemmas astar_eval = findPath_def toCell_def js_div_def js_floor_def isValidNode_def js_ge0_def
  js_lt_len_def gridCells_def heuristic_def minIndex_def getNeighbors_def directions_def
  isWalkable_def at_index_def processNeighbor_def reconstructPath_def toWaypoint_def Let_def

lemma demo_findPath:
  "findPath \<lparr>px = 16, py = 16\<rparr> \<lparr>px = 80, py = 48\<rparr> demo_grid 32 = Inr (Some demo_path)"
  by (simp add: astar_eval demo_grid_def demo_path_def EMPTY_def BRICK_def)

lemma toCell_nonzero: "toCell v t = Num x \<Longrightarrow> t \<noteq> 0"
  by (auto simp: toCell_def js_div_def js_floor_def split: if_splits)

lemma toCell_centre:
  assumes "t \<noteq> 0"
  shows "toCell (real_of_int k * t + t / 2) t = Num k"
proof -
  have "(real_of_int k * t + t / 2) / t = real_of_int k + 1 / 2"
    using assms by (simp add: field_simps)
  moreover have "\<lfloor>real_of_int k + 1 / 2\<rfloor> = k" by linarith
  ultimately show ?thesis using assms by (simp add: toCell_def js_div_def js_floor_def)
qed

lemma stepwise_tail: "stepwise (a # cs) \<Longrightarrow> stepwise cs"
  by (cases cs) simp_all

text \<open>
  Claim C10. When \<open>findPath\<close> returns a path, every waypoint of it is a cell inside the
  grid whose tile is walkable (Empty, Ice, Forest or Base), consecutive waypoints are in
  4-adjacent cells, and no waypoint is in the start cell. The world position of a waypoint
  lies in the cell the waypoint names.
\<close>

theorem findPath_waypoints:
  assumes "findPath start goal m t = Inr (Some path)"
  shows "list_all (\<lambda>w. inGrid m (wcell w) \<and> walkableTile m (wcell w)) path
         \<and> stepwise (map wcell path)
         \<and> list_all (\<lambda>w. (Num (gridX w), Num (gridY w)) \<noteq> (toCell (px start) t, toCell (py start) t)) path
         \<and> list_all (\<lambda>w. toCell (wx w) t = Num (gridX w) \<and> toCell (wy w) t = Num (gridY w)) path"
proof -
  from findPath_Some[OF assms] obtain sx sy gx gy where
    c: "toCell (px start) t = Num sx" "toCell (py start) t = Num sy"
       "toCell (px goal) t = Num gx" "toCell (py goal) t = Num gy"
       "inGrid m (sx, sy)" "inGrid m (gx, gy)" by blast
  from findPath_result[OF c] assms obtain n where
    n: "goodNode m (sx, sy) (gx, gy) n" "path = reconstructPath n t" by auto
  then have ok: "chainOk m (sx, sy) n" by (simp add: goodNode_def)
  from reconstructPath_cells[OF ok, of t] n(2)
  have a: "list_all (\<lambda>c. inGrid m c \<and> walkableTile m c \<and> c \<noteq> (sx, sy)) (map wcell path)"
    and b: "stepwise ((sx, sy) # map wcell path)"
    and w: "list_all (\<lambda>w. wx w = real_of_int (gridX w) * t + t / 2 \<and> wy w = real_of_int (gridY w) * t + t / 2) path"
    by simp_all
  from toCell_nonzero[OF c(1)] have t: "t \<noteq> 0" .
  have 1: "list_all (\<lambda>w. inGrid m (wcell w) \<and> walkableTile m (wcell w)) path"
    using a by (simp add: list_all_iff)
  have 2: "stepwise (map wcell path)" using b by (rule stepwise_tail)
  have 3: "list_all (\<lambda>w. (Num (gridX w), Num (gridY w)) \<noteq> (toCell (px start) t, toCell (py start) t)) path"
    using a c(1,2) by (auto simp: list_all_iff wcell_def)
  have 4: "list_all (\<lambda>w. toCell (wx w) t = Num (gridX w) \<and> toCell (wy w) t = Num (gridY w)) path"
    using w toCell_centre[OF t] by (auto simp: list_all_iff)
  from 1 2 3 4 show ?thesis by simp
qed

theorem findPath_waypoints_witness:
  "findPath \<lparr>px = 16, py = 16\<rparr> \<lparr>px = 80, py = 48\<rparr> demo_grid 32 = Inr (Some demo_path)
   \<and> list_all (\<lambda>w. inGrid demo_grid (wcell w) \<and> walkableTile demo_grid (wcell w)) demo_path
   \<and> stepwise (map wcell demo_path)
   \<and> list_all (\<lambda>w. (Num (gridX w), Num (gridY w)) \<noteq> (toCell 16 32, toCell 16 32)) demo_path"
  using findPath_waypoints[OF demo_findPath] demo_findPath by simp

subsection \<open>Endpoint validation\<close>

text \<open>
  \<open>findPath\<close> checks its two endpoints with \<open>isValidNode\<close>, which looks at the bounds
  of the grid only. A start on a brick tile is accepted, and a path from it is returned.
\<close>

theorem findPath_blocking_start_counterexample:
  "toCell 16 32 = Num 0 \<and> blockingTile brick_start_grid (0, 0)
   \<and> findPath \<lparr>px = 16, py = 16\<rparr> \<lparr>px = 48, py = 16\<rparr> brick_start_grid 32
       = Inr (Some [\<lparr>wx = 48, wy = 16, gridX = 1, gridY = 0\<rparr>])"
  by (simp add: astar_eval brick_start_grid_def blockingTile_def tileAt_def EMPTY_def BRICK_def
      STEEL_def WATER_def)

lemma blockingTile_not_walkable: "blockingTile m c \<Longrightarrow> \<not> walkableTile m c"
  by (auto simp: blockingTile_def walkableTile_def EMPTY_def BRICK_def STEEL_def WATER_def ICE_def
      FOREST_def BASE_def)

lemma reach_end: "reach m s g \<Longrightarrow> g = s \<or> (inGrid m g \<and> walkableTile m g)"
  by (induction rule: reach.induct) auto

text \<open>
  Claim C7, as the code has it. \<open>findPath\<close> converts the endpoints to grid cells and
  checks that both lie inside the grid before it searches: on a map with a row, if the
  start cell or the goal cell is outside the grid the result is none; and if the goal cell
  is a blocking tile (Brick, Steel or Water) other than the start cell the result is none
  as well, since the search never enters a blocking cell.
\<close>

theorem findPath_rejects_invalid_or_blocked_goal:
  assumes "m \<noteq> []"
    and "toCell (px start) t = Num sx" and "toCell (py start) t = Num sy"
    and "toCell (px goal) t = Num gx" and "toCell (py goal) t = Num gy"
    and "\<not> inGrid m (sx, sy) \<or> \<not> inGrid m (gx, gy)
         \<or> (blockingTile m (gx, gy) \<and> (gx, gy) \<noteq> (sx, sy))"
  shows "findPath start goal m t = Inr None"
proof (cases "\<not> inGrid m (sx, sy) \<or> \<not> inGrid m (gx, gy)")
  case True
  then show ?thesis by (rule findPath_invalid[OF assms(1-5)])
next
  case False
  with assms(6) have b: "blockingTile m (gx, gy)" "(gx, gy) \<noteq> (sx, sy)" by simp_all
  have "\<not> reach m (sx, sy) (gx, gy)"
    using reach_end[of m "(sx, sy)" "(gx, gy)"] b blockingTile_not_walkable[OF b(1)] by blast
  then show ?thesis by (rule findPath_unreachable[OF assms(1-5)])
qed

theorem findPath_rejects_invalid_or_blocked_goal_witness:
  "brick_goal_grid \<noteq> [] \<and> toCell 16 32 = Num 0 \<and> toCell 48 32 = Num 1
   \<and> blockingTile brick_goal_grid (1, 0) \<and> (1, 0) \<noteq> (0::int, 0::int)
   \<and> findPath \<lparr>px = 16, py = 16\<rparr> \<lparr>px = 48, py = 16\<rparr> brick_goal_grid 32 = Inr None"
proof -
  have a: "brick_goal_grid \<noteq> []" by (simp add: brick_goal_grid_def)
  have c0: "toCell (px \<lparr>px = 16, py = 16\<rparr>) 32 = Num 0" "toCell (py \<lparr>px = 16, py = 16\<rparr>) 32 = Num 0"
    by (simp_all add: toCell_def js_div_def js_floor_def)
  have c1: "toCell (px \<lparr>px = 48, py = 16\<rparr>) 32 = Num 1" "toCell (py \<lparr>px = 48, py = 16\<rparr>) 32 = Num 0"
    by (simp_all add: toCell_def js_div_def js_floor_def)
  have b: "blockingTile brick_goal_grid (1, 0)"
    by (simp add: brick_goal_grid_def blockingTile_def tileAt_def at_index_def BRICK_def)
  have h: "\<not> inGrid brick_goal_grid (0, 0) \<or> \<not> inGrid brick_goal_grid (1, 0)
         \<or> (blockingTile brick_goal_grid (1, 0) \<and> (1, 0) \<noteq> (0::int, 0::int))"
    using b by simp
  from findPath_rejects_invalid_or_blocked_goal[OF a c0 c1 h] a c0 c1 b show ?thesis by simp
qed

subsection \<open>Path simplification\<close>

lemma simplifyStep_prefix:
  "\<exists>ys. fst (foldl (simplifyStep path) acc is) = fst acc @ ys"
proof (induction "is" arbitrary: acc)
  case Nil
  show ?case by simp
next
  case (Cons i "is")
  from Cons[of "simplifyStep path acc i"] obtain ys where
    ys: "fst (foldl (simplifyStep path) (simplifyStep path acc i) is) = fst (simplifyStep path acc i) @ ys"
    by blast
  have "\<exists>zs. fst (simplifyStep path acc i) = fst acc @ zs"
    by (simp add: simplifyStep_def Let_def)
  then obtain zs where "fst (simplifyStep path acc i) = fst acc @ zs" ..
  with ys show ?case by simp
qed

lemma simplifyPath_first_twice:
  assumes "length path > 2"
  shows "\<exists>rest. simplifyPath (Some path) = Some (path ! 0 # path ! 0 # rest)"
proof -
  have u: "[1 ..< length path] = 1 # [Suc 1 ..< length path]"
    by (rule upt_conv_Cons) (use assms in linarith)
  have s1: "fst (simplifyStep path ([path ! 0], None) 1) = [path ! 0, path ! 0]"
    by (simp add: simplifyStep_def Let_def)
  from simplifyStep_prefix[of path "simplifyStep path ([path ! 0], None) 1" "[Suc 1 ..< length path]"]
  obtain ys where "fst (foldl (simplifyStep path) ([path ! 0], None) [1 ..< length path])
      = [path ! 0, path ! 0] @ ys"
    unfolding u s1 by (auto simp del: upt_Suc)
  then show ?thesis using assms by (simp add: simplifyPath_def Let_def)
qed

text \<open>
  Claim C8. \<open>simplifyPath\<close> is to keep the endpoints and the points where the direction
  changes, and never to return more waypoints than it was given. The loop starts with the
  first waypoint already in the result and, the last direction being \<open>null\<close>, adds it
  again at the first step (\<open>simplifyPath_first_twice\<close>). A three-point path with a turn
  at its middle point comes back with four waypoints; the five-point path of the
  repository's pathfinding guide, documented to simplify to three points, comes back
  with four.
\<close>

theorem simplifyPath_duplicates_first:
  "simplifyPath (Some turn_path) = Some turn_path_simplified
   \<and> length turn_path_simplified > length turn_path
   \<and> simplifyPath (Some guide_path)
       = Some [\<lparr>wx = 0, wy = 0, gridX = 0, gridY = 0\<rparr>, \<lparr>wx = 0, wy = 0, gridX = 0, gridY = 0\<rparr>,
               \<lparr>wx = 2, wy = 0, gridX = 2, gridY = 0\<rparr>, \<lparr>wx = 2, wy = 2, gridX = 2, gridY = 2\<rparr>]"
  by (simp add: simplifyPath_def simplifyStep_def Let_def turn_path_def turn_path_simplified_def
      guide_path_def)


subsection \<open>The search always returns\<close>

lemma isValidNode_error: "isValidNode node m = Inl e \<Longrightarrow> e = TypeError"
  by (cases m) (auto simp: isValidNode_def split: if_splits)

lemma findPath_never_out_of_fuel: "findPath start goal m t \<noteq> Inl OutOfFuel"
proof (cases "isValidNode (toCell (px start) t, toCell (py start) t) m = Inr True
              \<and> isValidNode (toCell (px goal) t, toCell (py goal) t) m = Inr True")
  case True
  then obtain sx sy gx gy where
    c: "toCell (px start) t = Num sx" "toCell (py start) t = Num sy"
       "toCell (px goal) t = Num gx" "toCell (py goal) t = Num gy"
       "inGrid m (sx, sy)" "inGrid m (gx, gy)"
    using isValidNode_True[of "toCell (px start) t" "toCell (py start) t" m]
      isValidNode_True[of "toCell (px goal) t" "toCell (py goal) t" m] by blast
  from findPath_result[OF c] show ?thesis by auto
next
  case False
  then show ?thesis
    by (auto simp: findPath_def Let_def split: sum.splits dest: isValidNode_error)
qed


subsection \<open>Shortest paths along a route that closes in on the goal\<close>


lemma heuristic_self: "heuristic a a = 0"
  by (simp add: heuristic_def)






















end
